theory Spec2Isabelle
  imports Complex_Main
begin

section \<open>The flat-buffer matrix of gocrunch/matrix\<close>

text \<open>
  The library has two copies of one design: \<^verbatim>\<open>Matf64\<close> (matf64.go) and \<^verbatim>\<open>Matf32\<close>.
  Both are a row count, a column count and a Go slice. The copies have the same control
  flow. They differ in the capacity they allocate, in the place where \<^verbatim>\<open>Dot\<close> takes the
  row slice of the receiver (inside or outside the inner loop, which no run without a
  panic can tell) and in the scalar case of \<^verbatim>\<open>Sub\<close>, of which both forms are
  modelled. One definition stands for both copies of a function: \<open>Matf\<close> for the structs
  \<^verbatim>\<open>Matf64\<close> and \<^verbatim>\<open>Matf32\<close>, \<open>Newf\<close> for \<^verbatim>\<open>Newf64\<close> and \<^verbatim>\<open>Newf32\<close>, \<open>Eyef\<close> for
  \<^verbatim>\<open>Eyef64\<close> and \<^verbatim>\<open>Eyef32\<close>, \<open>dotfHelper\<close> for \<^verbatim>\<open>dotf64Helper\<close> and
  \<^verbatim>\<open>dotf32Helper\<close>, \<open>fPool\<close> for \<^verbatim>\<open>f64Pool\<close> and \<^verbatim>\<open>f32Pool\<close>, and the methods under
  their names (\<open>Min_mat\<close>, \<open>Max_mat\<close> and \<open>Set_at\<close> for \<^verbatim>\<open>Min\<close>, \<^verbatim>\<open>Max\<close> and
  \<^verbatim>\<open>Set\<close>). The element type is a type variable: the structural operations use nothing of it, the
  arithmetic ones only the operations they apply, in the order the code applies them, so
  no law of real arithmetic that floating point lacks is assumed. Element equality is
  HOL equality (a NaN, which differs from itself, is outside the model). \<^verbatim>\<open>Std\<close>
  needs a square root and is modelled over \<^typ>\<open>real\<close>.

  Go's \<^verbatim>\<open>int\<close> is modelled as \<^typ>\<open>int\<close>: a buffer long enough for a product of
  dimensions to overflow 64 bits cannot be allocated. The capacity of a slice is not
  modelled: a slice expression \<^verbatim>\<open>s[lo:hi]\<close> is taken to panic when \<^verbatim>\<open>hi\<close> exceeds the
  length.

  Every failure the library reports goes through \<^verbatim>\<open>printErr\<close>, which prints and calls
  \<^verbatim>\<open>os.Exit(1)\<close>; it is the \<open>Inl\<close> of a result, named after the error of the
  specification's taxonomy. An index outside a slice is a panic of the Go runtime, not a
  report of the library: \<open>RuntimePanic\<close>; \<open>NilPointer\<close> is the panic on an address
  that holds no matrix. \<open>NotReal\<close> is no failure of the program: it
  stands for the NaN or infinity of a floating-point division by zero, which the real
  numbers of the model of \<^verbatim>\<open>Std\<close> do not have.
\<close>

datatype error =
    ArgumentCountError
  | TypeError
  | ShapeError
  | ShapeMismatchError
  | DimensionError
  | AxisError
  | IndexError
  | ArityError
  | ColumnMismatchError
  | RowMismatchError
  | NilPointer
  | RuntimePanic
  | NotReal

record 'a Matf =
  r :: int
  c :: int
  vals :: "'a list"

text \<open>The invariant of the data model: non-negative dimensions and a buffer of
  \<open>rows * cols\<close> elements.\<close>

definition shape_ok :: "'a Matf \<Rightarrow> bool" where
  "shape_ok m = (0 \<le> r m \<and> 0 \<le> c m \<and> int (length (vals m)) = r m * c m)"

subsection \<open>Slices and loops\<close>

text \<open>\<^verbatim>\<open>xs[i]\<close> as a read and as a write: the runtime panics outside \<open>[0, len)\<close>.\<close>

definition rd :: "'a list \<Rightarrow> int \<Rightarrow> error + 'a" where
  "rd xs i = (if 0 \<le> i \<and> i < int (length xs) then Inr (xs ! nat i) else Inl RuntimePanic)"

definition wr :: "'a list \<Rightarrow> int \<Rightarrow> 'a \<Rightarrow> error + 'a list" where
  "wr xs i v = (if 0 \<le> i \<and> i < int (length xs) then Inr (xs[nat i := v]) else Inl RuntimePanic)"

text \<open>\<^verbatim>\<open>xs[lo:hi]\<close>.\<close>

definition slice :: "'a list \<Rightarrow> int \<Rightarrow> int \<Rightarrow> error + 'a list" where
  "slice xs lo hi =
     (if 0 \<le> lo \<and> lo \<le> hi \<and> hi \<le> int (length xs)
      then Inr (take (nat (hi - lo)) (drop (nat lo) xs)) else Inl RuntimePanic)"

text \<open>\<^verbatim>\<open>copy(dst, src)\<close> overwrites the first \<open>min (len dst) (len src)\<close> elements of
  \<open>dst\<close>.\<close>

definition copy :: "'a list \<Rightarrow> 'a list \<Rightarrow> 'a list" where
  "copy dst src = take (length dst) src @ drop (length src) dst"

text \<open>\<^verbatim>\<open>make([]T, n)\<close>: \<open>n\<close> zero values; a negative length panics.\<close>

definition make_slice :: "int \<Rightarrow> error + ('a::zero) list" where
  "make_slice n = (if n < 0 then Inl RuntimePanic else Inr (replicate (nat n) 0))"

text \<open>Sequencing of fallible steps, and the loop \<^verbatim>\<open>for i := 0; i < n; i++\<close>: the
  body runs for \<open>i = 0, \<dots>, n - 1\<close> in this order (not at all when \<open>n \<le> 0\<close>) and the
  first failure ends the run.\<close>

definition bindE :: "error + 'a \<Rightarrow> ('a \<Rightarrow> error + 'b) \<Rightarrow> error + 'b" where
  "bindE x f = (case x of Inl e \<Rightarrow> Inl e | Inr v \<Rightarrow> f v)"

primrec forM :: "nat list \<Rightarrow> (int \<Rightarrow> 's \<Rightarrow> error + 's) \<Rightarrow> 's \<Rightarrow> error + 's" where
  "forM [] body s = Inr s"
| "forM (i # is) body s = bindE (body (int i) s) (forM is body)"

definition for_range :: "int \<Rightarrow> int \<Rightarrow> (int \<Rightarrow> 's \<Rightarrow> error + 's) \<Rightarrow> 's \<Rightarrow> error + 's" where
  "for_range lo hi body s = forM [nat lo..<nat hi] body s"

subsection \<open>Construction\<close>

text \<open>\<^verbatim>\<open>Newf64(dims ...int)\<close> and \<^verbatim>\<open>Newf32\<close>: zero to two dimensions.\<close>

fun Newf :: "int list \<Rightarrow> error + ('a::zero) Matf" where
  "Newf [] = bindE (make_slice 0) (\<lambda>v. Inr \<lparr>r = 0, c = 0, vals = v\<rparr>)"
| "Newf [x] = bindE (make_slice (x * x)) (\<lambda>v. Inr \<lparr>r = x, c = x, vals = v\<rparr>)"
| "Newf [x, y] = bindE (make_slice (x * y)) (\<lambda>v. Inr \<lparr>r = x, c = y, vals = v\<rparr>)"
| "Newf dims = Inl ArgumentCountError"

text \<open>\<^verbatim>\<open>SetAll(val)\<close>.\<close>

definition SetAll :: "'a Matf \<Rightarrow> 'a \<Rightarrow> 'a Matf" where
  "SetAll m v = m\<lparr>vals := map (\<lambda>_. v) (vals m)\<rparr>"

subsection \<open>Structural growth\<close>

text \<open>\<^verbatim>\<open>Append(n)\<close>: the column check, then
  \<^verbatim>\<open>m.vals = append(m.vals, n.vals...)\<close>; the row count is not assigned.\<close>

definition Append :: "'a Matf \<Rightarrow> 'a Matf \<Rightarrow> error + 'a Matf" where
  "Append m n =
     (if c m \<noteq> c n then Inl ColumnMismatchError
      else Inr (m\<lparr>vals := vals m @ vals n\<rparr>))"

text \<open>\<^verbatim>\<open>AppendRow(v)\<close>: both branches on the capacity build the same buffer; then
  \<^verbatim>\<open>m.r++\<close>.\<close>

definition AppendRow :: "'a Matf \<Rightarrow> 'a list \<Rightarrow> error + 'a Matf" where
  "AppendRow m v =
     (if c m \<noteq> int (length v) then Inl ArityError
      else Inr (m\<lparr>vals := vals m @ v, r := r m + 1\<rparr>))"

subsection \<open>The scratch pool of transpose\<close>

text \<open>work\_pool.go: a channel of at most ten buckets, each one slice. \<^verbatim>\<open>get\<close> takes
  the oldest bucket or, when the channel is empty, makes an empty one; \<^verbatim>\<open>put\<close> adds the
  bucket unless the channel is full.\<close>

type_synonym 'a matfPool = "'a list list"

definition get :: "'a matfPool \<Rightarrow> 'a list \<times> 'a matfPool" where
  "get p = (case p of [] \<Rightarrow> ([], []) | b # bs \<Rightarrow> (b, bs))"

definition put :: "'a matfPool \<Rightarrow> 'a list \<Rightarrow> 'a matfPool" where
  "put p b = (if length p < 10 then p @ [b] else p)"

subsection \<open>Transpose\<close>

definition isRowVector :: "'a Matf \<Rightarrow> bool" where
  "isRowVector m = (r m = 1)"

definition isColVector :: "'a Matf \<Rightarrow> bool" where
  "isColVector m = (c m = 1)"

text \<open>\<^verbatim>\<open>T()\<close>: a vector only swaps its dimensions. Otherwise the bucket \<open>n\<close> of the
  pool is replaced by a fresh slice when it is too short, filled column by column of the
  receiver through the running index \<open>idx\<close>, and copied over the receiver's buffer; the
  deferred \<^verbatim>\<open>put\<close> returns the bucket.\<close>

definition T :: "('a::zero) Matf \<Rightarrow> 'a matfPool \<Rightarrow> error + ('a Matf \<times> 'a matfPool)" where
  "T m p =
     (if isRowVector m \<or> isColVector m then Inr (m\<lparr>r := c m, c := r m\<rparr>, p)
      else
        let (n, p1) = get p in
        bindE (if int (length n) < c m * r m then make_slice (c m * r m) else Inr n) (\<lambda>n1.
        bindE (for_range 0 (c m) (\<lambda>i. for_range 0 (r m) (\<lambda>j (idx, nv).
                 bindE (rd (vals m) (j * c m + i)) (\<lambda>v.
                 bindE (wr nv idx v) (\<lambda>nv'. Inr (idx + 1, nv'))))) (0, n1)) (\<lambda>(idx, n2).
        Inr (m\<lparr>r := c m, c := r m, vals := copy (vals m) n2\<rparr>, put p1 n2))))"

subsection \<open>Equality and copy\<close>

text \<open>\<^verbatim>\<open>Equals(n)\<close>: the shapes, then the first \<open>r * c\<close> elements, left to right,
  stopping at the first difference.\<close>

primrec Equals_scan :: "'a list \<Rightarrow> 'a list \<Rightarrow> nat list \<Rightarrow> error + bool" where
  "Equals_scan xs ys [] = Inr True"
| "Equals_scan xs ys (i # is) =
     bindE (rd xs (int i)) (\<lambda>x. bindE (rd ys (int i)) (\<lambda>y.
       if x = y then Equals_scan xs ys is else Inr False))"

definition Equals :: "'a Matf \<Rightarrow> 'a Matf \<Rightarrow> error + bool" where
  "Equals m n =
     (if r m = r n then
        if c m = c n then Equals_scan (vals m) (vals n) [0..<nat (r m * c m)]
        else Inr False
      else Inr False)"

definition Copy :: "('a::zero) Matf \<Rightarrow> error + 'a Matf" where
  "Copy m = bindE (Newf [r m, c m]) (\<lambda>n. Inr (n\<lparr>vals := copy (vals n) (vals m)\<rparr>))"

subsection \<open>Matrix multiplication\<close>

text \<open>\<^verbatim>\<open>Dot\<close> transposes its argument in place and transposes it back on return, so the
  receiver and the argument are objects of a store: \<^verbatim>\<open>m.Dot(m)\<close> is a call with one
  address twice. The store also holds the pool, which is a package variable.\<close>

record 'a state =
  heap :: "nat \<Rightarrow> 'a Matf option"
  fPool :: "'a matfPool"

definition T_ptr :: "nat \<Rightarrow> ('a::zero) state \<Rightarrow> error + 'a state" where
  "T_ptr a s =
     (case heap s a of
        None \<Rightarrow> Inl NilPointer
      | Some m \<Rightarrow> bindE (T m (fPool s)) (\<lambda>(m', p'). Inr (s\<lparr>heap := (heap s)(a \<mapsto> m'), fPool := p'\<rparr>)))"

text \<open>\<^verbatim>\<open>dotf64Helper(a, b)\<close>: \<open>b\<close> is cut to the length of \<open>a\<close>; the sum starts at zero
  and takes the products from left to right.\<close>

definition dotfHelper :: "('a::{zero,plus,times}) list \<Rightarrow> 'a list \<Rightarrow> error + 'a" where
  "dotfHelper a b =
     bindE (slice a 0 (int (length a))) (\<lambda>a1.
     bindE (slice b 0 (int (length a1))) (\<lambda>b1.
     for_range 0 (int (length a1)) (\<lambda>i sum.
       bindE (rd a1 i) (\<lambda>v. bindE (rd b1 i) (\<lambda>w. Inr (sum + v * w)))) 0))"

text \<open>The two loops of \<^verbatim>\<open>Dot\<close>, on the receiver \<open>m\<close> and the argument \<open>n\<close> as they are
  after \<^verbatim>\<open>n.T()\<close>.\<close>

definition Dot_loops ::
  "('a::{zero,plus,times}) Matf \<Rightarrow> 'a Matf \<Rightarrow> 'a Matf \<Rightarrow> error + 'a Matf" where
  "Dot_loops m n o1 =
     for_range 0 (r m) (\<lambda>i o2.
       let imc = i * c m in
       bindE (slice (vals m) imc (imc + c m)) (\<lambda>mrow.
       for_range 0 (r n) (\<lambda>j o3.
         let jnc = j * c n in
         bindE (slice (vals n) jnc (jnc + c n)) (\<lambda>ncol.
         bindE (dotfHelper mrow ncol) (\<lambda>d.
         bindE (wr (vals o3) (i * r n + j) d) (\<lambda>v'. Inr (o3\<lparr>vals := v'\<rparr>))))) o2)) o1"

text \<open>\<^verbatim>\<open>m.Dot(n)\<close> for the receiver at address \<open>pm\<close> and the argument at \<open>pn\<close>: the
  result is a new matrix, returned with the store as the call leaves it.\<close>

definition Dot :: "nat \<Rightarrow> nat \<Rightarrow> ('a::{zero,plus,times}) state \<Rightarrow> error + ('a Matf \<times> 'a state)" where
  "Dot pm pn s =
     (case (heap s pm, heap s pn) of
        (Some m, Some n) \<Rightarrow>
          if c m = r n then
            bindE (Newf [r m, c n]) (\<lambda>o1.
            bindE (T_ptr pn s) (\<lambda>s1.
            bindE (case (heap s1 pm, heap s1 pn) of
                     (Some m1, Some n1) \<Rightarrow> Dot_loops m1 n1 o1
                   | _ \<Rightarrow> Inl NilPointer) (\<lambda>o2.
            bindE (T_ptr pn s1) (\<lambda>s2. Inr (o2, s2)))))
          else Inl DimensionError
      | _ \<Rightarrow> Inl NilPointer)"

text \<open>\<^verbatim>\<open>Eyef64(x)\<close> and \<^verbatim>\<open>Eyef32\<close>: a zero square matrix, then
  \<^verbatim>\<open>for i := 1; i < x; i++ { m.vals[i*i-1] = 1.0 }\<close>.\<close>

definition Eyef :: "int \<Rightarrow> error + ('a::{zero,one}) Matf" where
  "Eyef x =
     bindE (Newf [x]) (\<lambda>m.
     for_range 1 x (\<lambda>i m1. bindE (wr (vals m1) (i * i - 1) 1) (\<lambda>v. Inr (m1\<lparr>vals := v\<rparr>))) m)"

subsection \<open>Rows and columns\<close>

text \<open>An argument of type \<^verbatim>\<open>interface{}\<close> carries its dynamic type; the methods switch
  on it. \<open>'w\<close> is the type of \<^verbatim>\<open>float64\<close> values and \<open>'n\<close> that of \<^verbatim>\<open>float32\<close> values.\<close>

datatype ('w, 'n) iface =
    Float64 'w
  | Float32 'n
  | PtrMatf64 "'w Matf"
  | PtrMatf32 "'n Matf"
  | SliceFloat64 "'w list"
  | SliceFloat32 "'n list"
  | OtherType

text \<open>\<^verbatim>\<open>Row(x)\<close> and \<^verbatim>\<open>Col(x)\<close>: the bounds check, a new zero vector, and one of two
  loops according to the sign of \<open>x\<close>.\<close>

definition Row :: "('a::zero) Matf \<Rightarrow> int \<Rightarrow> error + 'a Matf" where
  "Row m x =
     (if x \<ge> r m \<or> x < - r m then Inl IndexError
      else bindE (Newf [1, c m]) (\<lambda>v.
        if x \<ge> 0 then
          for_range 0 (c m) (\<lambda>k v1.
            bindE (rd (vals m) (x * c m + k)) (\<lambda>e.
            bindE (wr (vals v1) k e) (\<lambda>vs. Inr (v1\<lparr>vals := vs\<rparr>)))) v
        else
          for_range 0 (c m) (\<lambda>k v1.
            bindE (rd (vals m) ((r m + x) * c m + k)) (\<lambda>e.
            bindE (wr (vals v1) k e) (\<lambda>vs. Inr (v1\<lparr>vals := vs\<rparr>)))) v))"

definition Col :: "('a::zero) Matf \<Rightarrow> int \<Rightarrow> error + 'a Matf" where
  "Col m x =
     (if x \<ge> c m \<or> x < - c m then Inl IndexError
      else bindE (Newf [r m, 1]) (\<lambda>v.
        if x \<ge> 0 then
          for_range 0 (r m) (\<lambda>k v1.
            bindE (rd (vals m) (k * c m + x)) (\<lambda>e.
            bindE (wr (vals v1) k e) (\<lambda>vs. Inr (v1\<lparr>vals := vs\<rparr>)))) v
        else
          for_range 0 (r m) (\<lambda>k v1.
            bindE (rd (vals m) (k * c m + (c m + x))) (\<lambda>e.
            bindE (wr (vals v1) k e) (\<lambda>vs. Inr (v1\<lparr>vals := vs\<rparr>)))) v))"

text \<open>\<^verbatim>\<open>SetCol(col, floatOrSlice)\<close> and \<^verbatim>\<open>SetRow(row, floatOrSlice)\<close> of
  \<^verbatim>\<open>Matf64\<close>. The scalar case checks the index; the slice case checks the length of the
  slice only. (\<^verbatim>\<open>Matf32\<close> has the same two cases with the same checks.)\<close>

definition SetCol :: "'a Matf \<Rightarrow> int \<Rightarrow> ('a, 'b) iface \<Rightarrow> error + 'a Matf" where
  "SetCol m col floatOrSlice =
     (case floatOrSlice of
        Float64 val \<Rightarrow>
          if col \<ge> c m \<or> col < - c m then Inl IndexError
          else if col \<ge> 0 then
            for_range 0 (r m) (\<lambda>k m1.
              bindE (wr (vals m1) (k * c m + col) val) (\<lambda>vs. Inr (m1\<lparr>vals := vs\<rparr>))) m
          else
            for_range 0 (r m) (\<lambda>k m1.
              bindE (wr (vals m1) (k * c m + (c m + col)) val) (\<lambda>vs. Inr (m1\<lparr>vals := vs\<rparr>))) m
      | SliceFloat64 val \<Rightarrow>
          if int (length val) = r m then
            if col \<ge> 0 then
              for_range 0 (r m) (\<lambda>k m1.
                bindE (rd val k) (\<lambda>e.
                bindE (wr (vals m1) (k * c m + col) e) (\<lambda>vs. Inr (m1\<lparr>vals := vs\<rparr>)))) m
            else
              for_range 0 (r m) (\<lambda>k m1.
                bindE (rd val k) (\<lambda>e.
                bindE (wr (vals m1) (k * c m + (c m + col)) e) (\<lambda>vs. Inr (m1\<lparr>vals := vs\<rparr>)))) m
          else Inl ArityError
      | _ \<Rightarrow> Inl TypeError)"

definition SetRow :: "'a Matf \<Rightarrow> int \<Rightarrow> ('a, 'b) iface \<Rightarrow> error + 'a Matf" where
  "SetRow m row floatOrSlice =
     (case floatOrSlice of
        Float64 val \<Rightarrow>
          if row \<ge> r m \<or> row < - r m then Inl IndexError
          else if row \<ge> 0 then
            for_range 0 (c m) (\<lambda>k m1.
              bindE (wr (vals m1) (row * c m + k) val) (\<lambda>vs. Inr (m1\<lparr>vals := vs\<rparr>))) m
          else
            for_range 0 (c m) (\<lambda>k m1.
              bindE (wr (vals m1) ((r m + row) * c m + k) val) (\<lambda>vs. Inr (m1\<lparr>vals := vs\<rparr>))) m
      | SliceFloat64 val \<Rightarrow>
          if int (length val) = c m then
            if row \<ge> 0 then
              for_range 0 (c m) (\<lambda>k m1.
                bindE (rd val k) (\<lambda>e.
                bindE (wr (vals m1) (row * c m + k) e) (\<lambda>vs. Inr (m1\<lparr>vals := vs\<rparr>)))) m
            else
              for_range 0 (c m) (\<lambda>k m1.
                bindE (rd val k) (\<lambda>e.
                bindE (wr (vals m1) ((r m + row) * c m + k) e) (\<lambda>vs. Inr (m1\<lparr>vals := vs\<rparr>)))) m
          else Inl ArityError
      | _ \<Rightarrow> Inl TypeError)"

subsection \<open>Minimum and maximum\<close>

text \<open>\<^verbatim>\<open>Min(args ...int)\<close> and \<^verbatim>\<open>Max\<close>: the first element of the selection is read
  before the loop, which starts at 1 and keeps the first index of the best value. The
  loop reads the element for the comparison and again for the assignment. (\<open>sel\<close> is
  the source's variable \<^verbatim>\<open>slice\<close>.)\<close>

definition scan_best ::
  "('a \<Rightarrow> 'a \<Rightarrow> bool) \<Rightarrow> 'a list \<Rightarrow> (int \<Rightarrow> int) \<Rightarrow> int \<Rightarrow> int \<times> 'a \<Rightarrow> error + int \<times> 'a" where
  "scan_best better xs off n =
     for_range 1 n (\<lambda>i (index, best).
       bindE (rd xs (off i)) (\<lambda>v.
         if better v best then bindE (rd xs (off i)) (\<lambda>v'. Inr (i, v'))
         else Inr (index, best)))"

definition best_of ::
  "('a \<Rightarrow> 'a \<Rightarrow> bool) \<Rightarrow> 'a Matf \<Rightarrow> int list \<Rightarrow> error + int \<times> 'a" where
  "best_of better m args =
     (case args of
        [] \<Rightarrow>
          bindE (rd (vals m) 0) (\<lambda>v0.
          scan_best better (vals m) (\<lambda>i. i) (int (length (vals m))) (0, v0))
      | [axis, sel] \<Rightarrow>
          if axis = 0 then
            if sel \<ge> r m \<or> sel < 0 then Inl IndexError
            else bindE (rd (vals m) (sel * c m)) (\<lambda>v0.
                 scan_best better (vals m) (\<lambda>i. sel * c m + i) (c m) (0, v0))
          else if axis = 1 then
            if sel \<ge> c m \<or> sel < 0 then Inl IndexError
            else bindE (rd (vals m) sel) (\<lambda>v0.
                 scan_best better (vals m) (\<lambda>i. i * c m + sel) (r m) (0, v0))
          else Inl AxisError
      | _ \<Rightarrow> Inl ArgumentCountError)"

definition Min_mat :: "('a::ord) Matf \<Rightarrow> int list \<Rightarrow> error + int \<times> 'a" where
  "Min_mat m args = best_of (\<lambda>v best. v < best) m args"

definition Max_mat :: "('a::ord) Matf \<Rightarrow> int list \<Rightarrow> error + int \<times> 'a" where
  "Max_mat m args = best_of (\<lambda>v best. v > best) m args"

subsection \<open>Elementwise arithmetic\<close>

text \<open>Modelled from the spec: \<^verbatim>\<open>vecf64.Add\<close>, \<^verbatim>\<open>Sub\<close>, \<^verbatim>\<open>Mul\<close>, \<^verbatim>\<open>Div\<close> and their
  \<^verbatim>\<open>vecf32\<close> twins belong to the package gorgonia/vecf64, whose source is not part of
  this repository. The specification says the matrix case is "applied elementwise": the
  first slice is overwritten with the results, element by element, and a second slice
  shorter than the first panics.\<close>

definition vecf :: "('a \<Rightarrow> 'a \<Rightarrow> 'a) \<Rightarrow> 'a list \<Rightarrow> 'a list \<Rightarrow> error + 'a list" where
  "vecf f a b =
     (if length b < length a then Inl RuntimePanic
      else Inr (map (\<lambda>(x, y). f x y) (zip a b)))"

text \<open>The matrix case shared by the eight methods: the two shape checks, then the
  vector operation on the buffers.\<close>

definition mat_case :: "('a \<Rightarrow> 'a \<Rightarrow> 'a) \<Rightarrow> 'a Matf \<Rightarrow> 'a Matf \<Rightarrow> error + 'a Matf" where
  "mat_case f m v =
     (if r v = r m then
        if c v = c m then bindE (vecf f (vals m) (vals v)) (\<lambda>vs. Inr (m\<lparr>vals := vs\<rparr>))
        else Inl ShapeMismatchError
      else Inl ShapeMismatchError)"

text \<open>\<^verbatim>\<open>Matf64\<close>: \<^verbatim>\<open>case float64\<close>, \<^verbatim>\<open>case *Matf64\<close>, \<^verbatim>\<open>default\<close>.\<close>

definition Matf64_Mul :: "('w::times) Matf \<Rightarrow> ('w, 'n) iface \<Rightarrow> error + 'w Matf" where
  "Matf64_Mul m a =
     (case a of
        Float64 v \<Rightarrow> Inr (m\<lparr>vals := map (\<lambda>e. e * v) (vals m)\<rparr>)
      | PtrMatf64 v \<Rightarrow> mat_case (\<lambda>x y. x * y) m v
      | _ \<Rightarrow> Inl TypeError)"

definition Matf64_Add :: "('w::plus) Matf \<Rightarrow> ('w, 'n) iface \<Rightarrow> error + 'w Matf" where
  "Matf64_Add m a =
     (case a of
        Float64 v \<Rightarrow> Inr (m\<lparr>vals := map (\<lambda>e. e + v) (vals m)\<rparr>)
      | PtrMatf64 v \<Rightarrow> mat_case (\<lambda>x y. x + y) m v
      | _ \<Rightarrow> Inl TypeError)"

definition Matf64_Sub :: "('w::minus) Matf \<Rightarrow> ('w, 'n) iface \<Rightarrow> error + 'w Matf" where
  "Matf64_Sub m a =
     (case a of
        Float64 v \<Rightarrow> Inr (m\<lparr>vals := map (\<lambda>e. e - v) (vals m)\<rparr>)
      | PtrMatf64 v \<Rightarrow> mat_case (\<lambda>x y. x - y) m v
      | _ \<Rightarrow> Inl TypeError)"

definition Matf64_Div :: "('w::divide) Matf \<Rightarrow> ('w, 'n) iface \<Rightarrow> error + 'w Matf" where
  "Matf64_Div m a =
     (case a of
        Float64 v \<Rightarrow> Inr (m\<lparr>vals := map (\<lambda>e. e div v) (vals m)\<rparr>)
      | PtrMatf64 v \<Rightarrow> mat_case (\<lambda>x y. x div y) m v
      | _ \<Rightarrow> Inl TypeError)"

text \<open>\<^verbatim>\<open>Matf32\<close>: \<^verbatim>\<open>Mul\<close>, \<^verbatim>\<open>Add\<close> and \<^verbatim>\<open>Div\<close> have \<^verbatim>\<open>case float64\<close> and convert
  the scalar with \<^verbatim>\<open>float32(v)\<close>, the parameter \<open>float32\<close> here; \<^verbatim>\<open>Sub\<close> has
  \<^verbatim>\<open>case float32\<close>.\<close>

definition Matf32_Mul :: "('w \<Rightarrow> 'n) \<Rightarrow> ('n::times) Matf \<Rightarrow> ('w, 'n) iface \<Rightarrow> error + 'n Matf" where
  "Matf32_Mul float32 m a =
     (case a of
        Float64 v \<Rightarrow> Inr (m\<lparr>vals := map (\<lambda>e. e * float32 v) (vals m)\<rparr>)
      | PtrMatf32 v \<Rightarrow> mat_case (\<lambda>x y. x * y) m v
      | _ \<Rightarrow> Inl TypeError)"

definition Matf32_Add :: "('w \<Rightarrow> 'n) \<Rightarrow> ('n::plus) Matf \<Rightarrow> ('w, 'n) iface \<Rightarrow> error + 'n Matf" where
  "Matf32_Add float32 m a =
     (case a of
        Float64 v \<Rightarrow> Inr (m\<lparr>vals := map (\<lambda>e. e + float32 v) (vals m)\<rparr>)
      | PtrMatf32 v \<Rightarrow> mat_case (\<lambda>x y. x + y) m v
      | _ \<Rightarrow> Inl TypeError)"

definition Matf32_Sub :: "('n::minus) Matf \<Rightarrow> ('w, 'n) iface \<Rightarrow> error + 'n Matf" where
  "Matf32_Sub m a =
     (case a of
        Float32 v \<Rightarrow> Inr (m\<lparr>vals := map (\<lambda>e. e - v) (vals m)\<rparr>)
      | PtrMatf32 v \<Rightarrow> mat_case (\<lambda>x y. x - y) m v
      | _ \<Rightarrow> Inl TypeError)"

definition Matf32_Div :: "('w \<Rightarrow> 'n) \<Rightarrow> ('n::divide) Matf \<Rightarrow> ('w, 'n) iface \<Rightarrow> error + 'n Matf" where
  "Matf32_Div float32 m a =
     (case a of
        Float64 v \<Rightarrow> Inr (m\<lparr>vals := map (\<lambda>e. e div float32 v) (vals m)\<rparr>)
      | PtrMatf32 v \<Rightarrow> mat_case (\<lambda>x y. x div y) m v
      | _ \<Rightarrow> Inl TypeError)"

subsection \<open>Average and standard deviation\<close>

definition fdiv :: "real \<Rightarrow> real \<Rightarrow> error + real" where
  "fdiv x y = (if y = 0 then Inl NotReal else Inr (x / y))"

text \<open>\<^verbatim>\<open>Avg(args ...int)\<close>: the sum of the selection, divided by the number of selected
  elements.\<close>

definition Avg :: "real Matf \<Rightarrow> int list \<Rightarrow> error + real" where
  "Avg m args =
     (case args of
        [] \<Rightarrow>
          bindE (for_range 0 (int (length (vals m))) (\<lambda>i sum.
                   bindE (rd (vals m) i) (\<lambda>v. Inr (sum + v))) 0) (\<lambda>sum.
          fdiv sum (real (length (vals m))))
      | [axis, sel] \<Rightarrow>
          if axis = 0 then
            if sel \<ge> r m \<or> sel < 0 then Inl IndexError
            else bindE (for_range 0 (c m) (\<lambda>i sum.
                          bindE (rd (vals m) (sel * c m + i)) (\<lambda>v. Inr (sum + v))) 0) (\<lambda>sum.
                 fdiv sum (real_of_int (c m)))
          else if axis = 1 then
            if sel \<ge> c m \<or> sel < 0 then Inl IndexError
            else bindE (for_range 0 (r m) (\<lambda>i sum.
                          bindE (rd (vals m) (i * c m + sel)) (\<lambda>v. Inr (sum + v))) 0) (\<lambda>sum.
                 fdiv sum (real_of_int (r m)))
          else Inl AxisError
      | _ \<Rightarrow> Inl ArgumentCountError)"

text \<open>\<^verbatim>\<open>Std(args ...int)\<close>: the average of the selection, the sum of the squared
  differences, and in all three forms
  \<^verbatim>\<open>math.Sqrt(sum / float64(len(m.vals)))\<close>.\<close>

definition Std :: "real Matf \<Rightarrow> int list \<Rightarrow> error + real" where
  "Std m args =
     (case args of
        [] \<Rightarrow>
          bindE (Avg m []) (\<lambda>avg.
          bindE (for_range 0 (int (length (vals m))) (\<lambda>i sum.
                   bindE (rd (vals m) i) (\<lambda>v. Inr (sum + (avg - v) * (avg - v)))) 0) (\<lambda>sum.
          bindE (fdiv sum (real (length (vals m)))) (\<lambda>q. Inr (sqrt q))))
      | [axis, sel] \<Rightarrow>
          if axis = 0 then
            if sel \<ge> r m \<or> sel < 0 then Inl IndexError
            else
              bindE (Avg m [axis, sel]) (\<lambda>avg.
              bindE (for_range 0 (c m) (\<lambda>i sum.
                       bindE (rd (vals m) (sel * c m + i)) (\<lambda>v.
                       Inr (sum + (avg - v) * (avg - v)))) 0) (\<lambda>sum.
              bindE (fdiv sum (real (length (vals m)))) (\<lambda>q. Inr (sqrt q))))
          else if axis = 1 then
            if sel \<ge> c m \<or> sel < 0 then Inl IndexError
            else
              bindE (Avg m [axis, sel]) (\<lambda>avg.
              bindE (for_range 0 (r m) (\<lambda>i sum.
                       bindE (rd (vals m) (i * c m + sel)) (\<lambda>v.
                       Inr (sum + (avg - v) * (avg - v)))) 0) (\<lambda>sum.
              bindE (fdiv sum (real (length (vals m)))) (\<lambda>q. Inr (sqrt q))))
          else Inl AxisError
      | _ \<Rightarrow> Inl ArgumentCountError)"

text \<open>The population standard deviation in the words of the specification:
  \<open>sqrt(mean((x - mean(x))^2))\<close>.\<close>

definition mean :: "real list \<Rightarrow> real" where
  "mean xs = sum_list xs / real (length xs)"

definition pop_std :: "real list \<Rightarrow> real" where
  "pop_std xs = sqrt (mean (map (\<lambda>x. (x - mean xs)\<^sup>2) xs))"

text \<open>The elements of row \<open>i\<close> and of column \<open>j\<close> of a matrix, as lists.\<close>

definition row_elems :: "'a Matf \<Rightarrow> nat \<Rightarrow> 'a list" where
  "row_elems m i = take (nat (c m)) (drop (i * nat (c m)) (vals m))"

definition col_elems :: "'a Matf \<Rightarrow> nat \<Rightarrow> 'a list" where
  "col_elems m j = map (\<lambda>k. vals m ! (k * nat (c m) + j)) [0..<nat (r m)]"

subsection \<open>Shape and single elements\<close>

text \<open>The invariant as the specification words it, without the signs of the
  dimensions: \<open>len(buffer) = rows * cols\<close>.\<close>

definition buffer_ok :: "'a Matf \<Rightarrow> bool" where
  "buffer_ok m = (int (length (vals m)) = r m * c m)"

text \<open>\<^verbatim>\<open>Reshape(rows, cols)\<close> and \<^verbatim>\<open>Set(r, c, val)\<close>.\<close>

definition Reshape :: "'a Matf \<Rightarrow> int \<Rightarrow> int \<Rightarrow> error + 'a Matf" where
  "Reshape m rows cols =
     (if rows * cols = r m * c m then Inr (m\<lparr>r := rows, c := cols\<rparr>) else Inl ShapeError)"

definition Set_at :: "'a Matf \<Rightarrow> int \<Rightarrow> int \<Rightarrow> 'a \<Rightarrow> error + 'a Matf" where
  "Set_at m i j val = bindE (wr (vals m) (i * c m + j) val) (\<lambda>vs. Inr (m\<lparr>vals := vs\<rparr>))"

text \<open>\<^verbatim>\<open>ToSlice2D()\<close>: one new slice per row, filled from the buffer.\<close>

definition ToSlice2D :: "('a::zero) Matf \<Rightarrow> error + 'a list list" where
  "ToSlice2D m =
     (if r m < 0 then Inl RuntimePanic
      else for_range 0 (r m) (\<lambda>i s.
        bindE (make_slice (c m)) (\<lambda>row0.
        bindE (for_range 0 (c m) (\<lambda>j row.
                 bindE (rd (vals m) (i * c m + j)) (\<lambda>e. wr row j e)) row0) (\<lambda>row.
        Inr (s @ [row])))) [])"

text \<open>\<^verbatim>\<open>AppendCol(v)\<close>: the rows are taken out, each gets its new last element, the
  buffer is lengthened by \<open>v\<close>, the column count is incremented and the buffer is
  rewritten row by row.\<close>

definition AppendCol :: "('a::zero) Matf \<Rightarrow> 'a list \<Rightarrow> error + 'a Matf" where
  "AppendCol m v =
     (if r m = int (length v) then
        bindE (ToSlice2D m) (\<lambda>q.
        bindE (for_range 0 (int (length q)) (\<lambda>i q1.
                 bindE (rd q1 i) (\<lambda>row. bindE (rd v i) (\<lambda>e. wr q1 i (row @ [e])))) q) (\<lambda>q2.
        for_range 0 (r m) (\<lambda>i. for_range 0 (c m + 1) (\<lambda>j m2.
          bindE (rd q2 i) (\<lambda>row. bindE (rd row j) (\<lambda>e.
          bindE (wr (vals m2) (i * c m2 + j) e) (\<lambda>vs. Inr (m2\<lparr>vals := vs\<rparr>))))))
          (m\<lparr>c := c m + 1, vals := vals m @ v\<rparr>)))
      else Inl ArityError)"

text \<open>\<^verbatim>\<open>Concat(n)\<close>: the rows of both operands are taken out and joined, the buffer is
  lengthened by the buffer of \<open>n\<close>, the column count grows by \<open>n.c\<close> and the buffer is
  rewritten row by row.\<close>

definition Concat :: "('a::zero) Matf \<Rightarrow> 'a Matf \<Rightarrow> error + 'a Matf" where
  "Concat m n =
     (if r m = r n then
        bindE (ToSlice2D m) (\<lambda>q.
        bindE (ToSlice2D n) (\<lambda>rn.
        bindE (for_range 0 (int (length q)) (\<lambda>i q1.
                 bindE (rd q1 i) (\<lambda>row. bindE (rd rn i) (\<lambda>row'. wr q1 i (row @ row')))) q) (\<lambda>q2.
        for_range 0 (r m) (\<lambda>i. for_range 0 (c m + c n) (\<lambda>j m2.
          bindE (rd q2 i) (\<lambda>row. bindE (rd row j) (\<lambda>e.
          bindE (wr (vals m2) (i * c m2 + j) e) (\<lambda>vs. Inr (m2\<lparr>vals := vs\<rparr>))))))
          (m\<lparr>c := c m + c n, vals := vals m @ vals n\<rparr>))))
      else Inl RowMismatchError)"

text \<open>A matrix with given dimensions and buffer length: what a loop that only
  assigns elements keeps.\<close>

definition same_size :: "int \<Rightarrow> int \<Rightarrow> nat \<Rightarrow> 'a Matf \<Rightarrow> bool" where
  "same_size a b n m = (r m = a \<and> c m = b \<and> length (vals m) = n)"

subsection \<open>Reference values\<close>

text \<open>What the specification says a transpose and a product hold, written on the
  buffers: the transpose of an \<open>R\<close> by \<open>C\<close> buffer lists column after column, and entry
  \<open>(i, j)\<close> of the product of an \<open>R\<close> by \<open>K\<close> and a \<open>K\<close> by \<open>C\<close> buffer adds the products
  \<open>a(i, k) * b(k, j)\<close> for \<open>k = 0, \<dots>, K - 1\<close> to zero in this order.\<close>

definition tr_vals :: "nat \<Rightarrow> nat \<Rightarrow> 'a list \<Rightarrow> 'a list" where
  "tr_vals R C vs = concat (map (\<lambda>i. map (\<lambda>j. vs ! (j * C + i)) [0..<R]) [0..<C])"

definition dot_vals :: "nat \<Rightarrow> nat \<Rightarrow> nat \<Rightarrow> ('a::{zero,plus,times}) list \<Rightarrow> 'a list \<Rightarrow> 'a list" where
  "dot_vals R K C a b =
     concat (map (\<lambda>i. map (\<lambda>j. foldl (\<lambda>s k. s + a ! (i * K + k) * b ! (k * C + j)) 0 [0..<K])
       [0..<C]) [0..<R])"

section \<open>Theorems\<close>

lemma bindE_Inr [simp]: "bindE (Inr v) f = f v"
  by (simp add: bindE_def)

lemma bindE_Inl [simp]: "bindE (Inl e) f = Inl e"
  by (simp add: bindE_def)

subsection \<open>Append\<close>

lemma Append_vals:
  "c m = c n \<Longrightarrow> Append m n = Inr m' \<Longrightarrow> vals m' = vals m @ vals n \<and> c m' = c m \<and> r m' = r m"
  by (auto simp: Append_def)

lemma AppendRow_shape_ok:
  "shape_ok m \<Longrightarrow> AppendRow m v = Inr m' \<Longrightarrow> shape_ok m'"
  by (auto simp: AppendRow_def shape_ok_def algebra_simps split: if_splits)

text \<open>
  C1 (fails on the code). The invariant \<open>len(buffer) = rows * cols\<close> does not survive
  \<^verbatim>\<open>Append\<close>: a 1x2 matrix of 2.0 that receives a 2x2 matrix of 3.0 has six elements
  and still one row and two columns, since \<^verbatim>\<open>Append\<close> never updates the row count
  (\<^verbatim>\<open>AppendRow\<close> does). The other operations keep the invariant: see the last
  subsection.
\<close>

theorem Append_breaks_invariant:
  "(case Append \<lparr>r = 1, c = 2, vals = [2, 2 :: real]\<rparr> \<lparr>r = 2, c = 2, vals = [3, 3, 3, 3]\<rparr> of
      Inl e \<Rightarrow> False
    | Inr m' \<Rightarrow> shape_ok \<lparr>r = 1, c = 2, vals = [2, 2 :: real]\<rparr>
        \<and> shape_ok \<lparr>r = 2, c = 2, vals = [3, 3, 3, 3 :: real]\<rparr>
        \<and> length (vals m') = 6 \<and> r m' * c m' = 2 \<and> \<not> shape_ok m')"
  by (simp add: Append_def shape_ok_def)

text \<open>
  C2 (fails on the code). Appending a 2x2 matrix of 3.0 under a 1x2 matrix of 2.0: the
  buffer is the concatenation and the column count is kept, but the receiver still has
  one row, not three.
\<close>

theorem Append_scenario_rows:
  "Append \<lparr>r = 1, c = 2, vals = [2, 2 :: real]\<rparr> \<lparr>r = 2, c = 2, vals = [3, 3, 3, 3]\<rparr>
     = Inr \<lparr>r = 1, c = 2, vals = [2, 2, 3, 3, 3, 3]\<rparr>"
  by (simp add: Append_def)

subsection \<open>Loops\<close>


lemma forM_append: "forM (xs @ ys) body s = bindE (forM xs body s) (forM ys body)"
  by (induction xs arbitrary: s) (auto simp: bindE_def split: sum.splits)

lemma forM_iter:
  assumes "\<And>i. i < K \<Longrightarrow> body (int i) (g i) = Inr (g (Suc i))"
  shows "forM [0..<K] body (g 0) = Inr (g K)"
  using assms
proof (induction K)
  case 0
  then show ?case by simp
next
  case (Suc K)
  then have "forM [0..<K] body (g 0) = Inr (g K)" by simp
  then show ?case using Suc.prems [of K] by (simp add: forM_append)
qed

lemma for_range_iter:
  assumes "\<And>i. i < K \<Longrightarrow> body (int i) (g i) = Inr (g (Suc i))"
  shows "for_range 0 (int K) body (g 0) = Inr (g K)"
  using forM_iter [of K body g] assms by (simp add: for_range_def)

lemma rd_nat: "rd xs (int k) = (if k < length xs then Inr (xs ! k) else Inl RuntimePanic)"
  by (simp add: rd_def)

lemma wr_nat: "wr xs (int k) v = (if k < length xs then Inr (xs[k := v]) else Inl RuntimePanic)"
  by (simp add: wr_def)

lemma fill_step:
  assumes "k + j < length nv"
  shows "(take k nv @ map f [0..<j] @ drop (k + j) nv)[k + j := f j]
       = take k nv @ map f [0..<Suc j] @ drop (k + Suc j) nv"
proof -
  have "drop (k + j) nv = nv ! (k + j) # drop (Suc (k + j)) nv"
    using assms by (simp add: Cons_nth_drop_Suc)
  then show ?thesis using assms by (simp add: list_update_append)
qed

lemma T_inner:
  assumes rdok: "\<And>j. j < R \<Longrightarrow> j * C + i < length vs"
    and room: "k + R \<le> length nv"
  shows "for_range 0 (int R) (\<lambda>j (idx, nv).
           bindE (rd vs (j * int C + int i)) (\<lambda>v.
           bindE (wr nv idx v) (\<lambda>nv'. Inr (idx + 1, nv')))) (int k, nv)
       = Inr (int (k + R), take k nv @ map (\<lambda>j. vs ! (j * C + i)) [0..<R] @ drop (k + R) nv)"
proof -
  let ?f = "\<lambda>j. vs ! (j * C + i)"
  let ?g = "\<lambda>j. (int (k + j), take k nv @ map ?f [0..<j] @ drop (k + j) nv)"
  have "for_range 0 (int R) (\<lambda>j (idx, nv).
           bindE (rd vs (j * int C + int i)) (\<lambda>v.
           bindE (wr nv idx v) (\<lambda>nv'. Inr (idx + 1, nv')))) (?g 0) = Inr (?g R)"
  proof (rule for_range_iter)
    fix j assume j: "j < R"
    have e: "int j * int C + int i = int (j * C + i)" by simp
    have len: "k + j < length (take k nv @ map ?f [0..<j] @ drop (k + j) nv)"
      using j room by simp
    have "k + j < length nv" using j room by simp
    note fs = fill_step [OF this, of ?f]
    show "(case ?g j of (idx, nv) \<Rightarrow>
           bindE (rd vs (int j * int C + int i)) (\<lambda>v.
           bindE (wr nv idx v) (\<lambda>nv'. Inr (idx + 1, nv')))) = Inr (?g (Suc j))"
      unfolding e using rdok [OF j] len fs by (simp add: rd_nat wr_nat del: of_nat_add of_nat_mult)
  qed
  then show ?thesis by simp
qed


lemma idx_bound: "j < R \<Longrightarrow> i < C \<Longrightarrow> j * C + i < R * (C::nat)"
proof -
  assume j: "j < R" and i: "i < C"
  have "j * C + i < Suc j * C" using i by simp
  also have "\<dots> \<le> R * C" using j by (intro mult_le_mono1) simp
  finally show ?thesis .
qed

lemma length_concat_rows:
  "length (concat (map (\<lambda>i. map (f i) [0..<R]) [0..<n])) = n * R"
  by (induction n) simp_all

lemma T_outer:
  assumes vs: "R * C \<le> length vs" and room: "C * R \<le> length nv"
  shows "for_range 0 (int C) (\<lambda>i. for_range 0 (int R) (\<lambda>j (idx, nv).
           bindE (rd vs (j * int C + i)) (\<lambda>v.
           bindE (wr nv idx v) (\<lambda>nv'. Inr (idx + 1, nv'))))) (0, nv)
       = Inr (int (C * R), tr_vals R C vs @ drop (C * R) nv)"
proof -
  let ?row = "\<lambda>i. map (\<lambda>j. vs ! (j * C + i)) [0..<R]"
  let ?P = "\<lambda>i. concat (map ?row [0..<i])"
  let ?g = "\<lambda>i. (int (i * R), ?P i @ drop (i * R) nv)"
  let ?body = "\<lambda>i. for_range 0 (int R) (\<lambda>j (idx, nv).
           bindE (rd vs (j * int C + i)) (\<lambda>v.
           bindE (wr nv idx v) (\<lambda>nv'. Inr (idx + 1, nv'))))"
  have "for_range 0 (int C) ?body (?g 0) = Inr (?g C)"
  proof (rule for_range_iter)
    fix i assume i: "i < C"
    have lenP: "length (?P i) = i * R" by (rule length_concat_rows)
    have "Suc i * R \<le> C * R" using i by (intro mult_le_mono1) simp
    then have room': "i * R + R \<le> length (?P i @ drop (i * R) nv)"
      using room lenP by simp
    have rdok: "\<And>j. j < R \<Longrightarrow> j * C + i < length vs"
      using idx_bound [OF _ i] vs by (meson less_le_trans)
    have "?body (int i) (?g i)
        = Inr (int (i * R + R), take (i * R) (?P i @ drop (i * R) nv) @ ?row i
                 @ drop (i * R + R) (?P i @ drop (i * R) nv))"
      by (rule T_inner [OF rdok room'])
    also have "\<dots> = Inr (?g (Suc i))"
      using lenP by (simp add: add.commute)
    finally show "?body (int i) (?g i) = Inr (?g (Suc i))" .
  qed
  then show ?thesis by (simp add: tr_vals_def)
qed


lemma length_tr_vals [simp]: "length (tr_vals R C vs) = C * R"
  by (simp add: tr_vals_def length_concat_rows)

lemma tr_vals_row_vector: "length vs = C \<Longrightarrow> tr_vals 1 C vs = vs"
  using map_nth [of vs] by (simp add: tr_vals_def)

lemma tr_vals_col_vector: "length vs = R \<Longrightarrow> tr_vals R 1 vs = vs"
  using map_nth [of vs] by (simp add: tr_vals_def)

lemma shape_okD:
  assumes "shape_ok m"
  obtains R C where "r m = int R" "c m = int C" "length (vals m) = R * C"
proof -
  from assms have a: "0 \<le> r m" "0 \<le> c m" "int (length (vals m)) = r m * c m"
    by (simp_all add: shape_ok_def)
  have "r m = int (nat (r m))" "c m = int (nat (c m))" using a by simp_all
  moreover have "length (vals m) = nat (r m) * nat (c m)"
    using a by (metis nat_int nat_mult_distrib)
  ultimately show ?thesis using that by blast
qed

lemma T_general:
  assumes R: "r m = int R" and C: "c m = int C" and len: "length (vals m) = R * C"
    and gen: "R \<noteq> 1" "C \<noteq> 1"
  shows "\<exists>b. T m p = Inr (\<lparr>r = int C, c = int R, vals = tr_vals R C (vals m)\<rparr>, put (snd (get p)) b)"
proof -
  obtain n p1 where g: "get p = (n, p1)" by (cases "get p")
  define n1 where "n1 = (if length n < C * R then replicate (C * R) (0::'a) else n)"
  have n1: "(if int (length n) < c m * r m then make_slice (c m * r m) else Inr n) = Inr n1"
    unfolding n1_def R C make_slice_def
    by (simp add: nat_mult_distrib del: of_nat_mult flip: of_nat_mult)
  have room: "C * R \<le> length n1" by (simp add: n1_def)
  have vs: "R * C \<le> length (vals m)" using len by simp
  note loop = T_outer [OF vs room]
  have cp: "copy (vals m) (tr_vals R C (vals m) @ drop (C * R) n1) = tr_vals R C (vals m)"
    using len room by (simp add: copy_def mult.commute)
  have "T m p = Inr (\<lparr>r = int C, c = int R, vals = tr_vals R C (vals m)\<rparr>,
                     put p1 (tr_vals R C (vals m) @ drop (C * R) n1))"
    using gen unfolding T_def isRowVector_def isColVector_def g
    apply (simp only: Let_def prod.case n1 bindE_Inr)
    apply (simp add: R C loop cp del: of_nat_mult)
    done
  then show ?thesis using g by auto
qed


lemma nth_concat_rows:
  "i < n \<Longrightarrow> j < R \<Longrightarrow> concat (map (\<lambda>i. map (f i) [0..<R]) [0..<n]) ! (i * R + j) = f i j"
proof (induction n)
  case 0
  then show ?case by simp
next
  case (Suc n)
  show ?case
  proof (cases "i < n")
    case True
    then have "i * R + j < n * R" using idx_bound [OF True Suc.prems(2)] by simp
    then show ?thesis using Suc True by (simp add: nth_append length_concat_rows)
  next
    case False
    then have "i = n" using Suc.prems by simp
    then show ?thesis using Suc.prems by (simp add: nth_append length_concat_rows)
  qed
qed

lemma nth_tr_vals: "i < C \<Longrightarrow> j < R \<Longrightarrow> tr_vals R C vs ! (i * R + j) = vs ! (j * C + i)"
  unfolding tr_vals_def by (rule nth_concat_rows)

lemma map_nth_offset: "k + n \<le> length vs \<Longrightarrow> map (\<lambda>j. vs ! (k + j)) [0..<n] = take n (drop k vs)"
  by (rule nth_equalityI) simp_all

lemma concat_rows_take:
  "R * C \<le> length vs \<Longrightarrow> concat (map (\<lambda>i. map (\<lambda>j. vs ! (i * C + j)) [0..<C]) [0..<R]) = take (R * C) vs"
proof (induction R)
  case 0
  then show ?case by simp
next
  case (Suc R)
  then have le: "R * C + C \<le> length vs" by (simp add: add.commute)
  have "concat (map (\<lambda>i. map (\<lambda>j. vs ! (i * C + j)) [0..<C]) [0..<Suc R])
      = take (R * C) vs @ map (\<lambda>j. vs ! (R * C + j)) [0..<C]"
    using Suc by simp
  also have "\<dots> = take (R * C) vs @ take C (drop (R * C) vs)"
    by (simp only: map_nth_offset [OF le])
  also have "\<dots> = take (R * C + C) vs" by (simp only: take_add)
  finally show ?case by (simp add: add.commute)
qed

lemma tr_vals_tr_vals:
  assumes "length vs = R * C"
  shows "tr_vals C R (tr_vals R C vs) = vs"
proof -
  have "tr_vals C R (tr_vals R C vs)
      = concat (map (\<lambda>i. map (\<lambda>j. vs ! (i * C + j)) [0..<C]) [0..<R])"
    unfolding tr_vals_def [of C R]
    by (intro arg_cong [where f = concat] map_cong refl) (simp add: nth_tr_vals)
  also have "\<dots> = take (R * C) vs" using assms by (intro concat_rows_take) simp
  finally show ?thesis using assms by simp
qed

lemma T_shape_ok:
  assumes "shape_ok m"
  shows "\<exists>p'. T m p = Inr (\<lparr>r = c m, c = r m, vals = tr_vals (nat (r m)) (nat (c m)) (vals m)\<rparr>, p')"
proof -
  from assms obtain R C where RC: "r m = int R" "c m = int C" "length (vals m) = R * C"
    by (rule shape_okD)
  show ?thesis
  proof (cases "R = 1 \<or> C = 1")
    case True
    then have "tr_vals R C (vals m) = vals m"
      using RC(3) tr_vals_row_vector [of "vals m" C] tr_vals_col_vector [of "vals m" R]
      by auto
    then show ?thesis using True RC(1,2)
      by (auto simp: T_def isRowVector_def isColVector_def)
  next
    case False
    then show ?thesis using T_general [OF RC, of p] RC(1,2) by auto
  qed
qed



lemma slice_nat:
  "slice xs (int lo) (int lo + int n) =
     (if lo + n \<le> length xs then Inr (take n (drop lo xs)) else Inl RuntimePanic)"
  by (simp add: slice_def)

lemma slice_whole: "slice xs 0 (int (length xs)) = Inr xs"
  by (simp add: slice_def)

lemma slice_prefix: "n \<le> length xs \<Longrightarrow> slice xs 0 (int n) = Inr (take n xs)"
  by (simp add: slice_def)

lemma dotfHelper_eq:
  assumes "length a \<le> length b"
  shows "dotfHelper a b = Inr (foldl (\<lambda>s k. s + a ! k * b ! k) 0 [0..<length a])"
proof -
  let ?g = "\<lambda>k. foldl (\<lambda>s k. s + a ! k * b ! k) 0 [0..<k]"
  have "for_range 0 (int (length a)) (\<lambda>i sum.
       bindE (rd a i) (\<lambda>v. bindE (rd (take (length a) b) i) (\<lambda>w. Inr (sum + v * w)))) (?g 0)
     = Inr (?g (length a))"
    by (rule for_range_iter) (use assms in \<open>simp add: rd_nat\<close>)
  then show ?thesis
    using assms by (simp add: dotfHelper_def slice_whole slice_prefix)
qed

lemma fill_loop:
  assumes val: "\<And>j. j < n \<Longrightarrow> val (int j) = Inr (f j)"
    and room: "k + n \<le> length (vals ob)"
  shows "for_range 0 (int n) (\<lambda>j o3.
           bindE (val j) (\<lambda>d. bindE (wr (vals o3) (int k + j) d) (\<lambda>v'. Inr (o3\<lparr>vals := v'\<rparr>)))) ob
       = Inr (ob\<lparr>vals := take k (vals ob) @ map f [0..<n] @ drop (k + n) (vals ob)\<rparr>)"
proof -
  let ?g = "\<lambda>j. ob\<lparr>vals := take k (vals ob) @ map f [0..<j] @ drop (k + j) (vals ob)\<rparr>"
  have "for_range 0 (int n) (\<lambda>j o3.
           bindE (val j) (\<lambda>d. bindE (wr (vals o3) (int k + j) d) (\<lambda>v'. Inr (o3\<lparr>vals := v'\<rparr>)))) (?g 0)
       = Inr (?g n)"
  proof (rule for_range_iter)
    fix j assume j: "j < n"
    have e: "int k + int j = int (k + j)" by simp
    have lt: "k + j < length (vals ob)" using j room by simp
    show "bindE (val (int j)) (\<lambda>d. bindE (wr (vals (?g j)) (int k + int j) d)
            (\<lambda>v'. Inr ((?g j)\<lparr>vals := v'\<rparr>))) = Inr (?g (Suc j))"
      unfolding e using val [OF j] lt fill_step [OF lt, of f]
      by (simp add: wr_nat del: of_nat_add)
  qed
  then show ?thesis by simp
qed


lemma bindE_assoc: "bindE (bindE x f) g = bindE x (\<lambda>v. bindE (f v) g)"
  by (cases x) simp_all

lemma row_bound: "j < (C::nat) \<Longrightarrow> j * K + K \<le> C * K"
proof -
  assume "j < C"
  then have "Suc j * K \<le> C * K" by (intro mult_le_mono1) simp
  then show ?thesis by (simp add: add.commute)
qed

lemma Dot_inner:
  assumes n: "length nv = C * K" and a: "length mrow = K"
    and room: "i * C + C \<le> length (vals o2)"
  shows "for_range 0 (int C) (\<lambda>j o3.
           let jnc = j * int K in
           bindE (slice nv jnc (jnc + int K)) (\<lambda>ncol.
           bindE (dotfHelper mrow ncol) (\<lambda>d.
           bindE (wr (vals o3) (int i * int C + j) d) (\<lambda>v'. Inr (o3\<lparr>vals := v'\<rparr>))))) o2
       = Inr (o2\<lparr>vals := take (i * C) (vals o2)
                @ map (\<lambda>j. foldl (\<lambda>s k. s + mrow ! k * nv ! (j * K + k)) 0 [0..<K]) [0..<C]
                @ drop (i * C + C) (vals o2)\<rparr>)"
proof -
  define val where
    "val = (\<lambda>j::int. bindE (slice nv (j * int K) (j * int K + int K)) (dotfHelper mrow))"
  have body: "(\<lambda>j o3.
           let jnc = j * int K in
           bindE (slice nv jnc (jnc + int K)) (\<lambda>ncol.
           bindE (dotfHelper mrow ncol) (\<lambda>d.
           bindE (wr (vals o3) (int i * int C + j) d) (\<lambda>v'. Inr (o3\<lparr>vals := v'\<rparr>)))))
       = (\<lambda>j o3. bindE (val j) (\<lambda>d.
           bindE (wr (vals o3) (int (i * C) + j) d) (\<lambda>v'. Inr (o3\<lparr>vals := v'\<rparr>))))"
    by (simp only: val_def Let_def bindE_assoc of_nat_mult)
  have v: "val (int j) = Inr (foldl (\<lambda>s k. s + mrow ! k * nv ! (j * K + k)) 0 [0..<K])"
    if j: "j < C" for j
  proof -
    have e: "int j * int K = int (j * K)" by simp
    have le: "j * K + K \<le> length nv" using row_bound [OF j] n by simp
    have "val (int j) = dotfHelper mrow (take K (drop (j * K) nv))"
      unfolding val_def e using le by (simp add: slice_nat del: of_nat_mult)
    also have "\<dots> = Inr (foldl (\<lambda>s k. s + mrow ! k * take K (drop (j * K) nv) ! k) 0 [0..<K])"
      using le a dotfHelper_eq [of mrow "take K (drop (j * K) nv)"] by simp
    also have "foldl (\<lambda>s k. s + mrow ! k * take K (drop (j * K) nv) ! k) 0 [0..<K]
             = foldl (\<lambda>s k. s + mrow ! k * nv ! (j * K + k)) 0 [0..<K]"
      using le by (intro foldl_cong refl) simp
    finally show ?thesis .
  qed
  show ?thesis unfolding body
    by (rule fill_loop [where val = val and k = "i * C" and n = C and ob = o2, OF v room])
qed

lemma Dot_loops_eq:
  assumes m: "r m = int R" "c m = int K" "length (vals m) = R * K"
    and n: "r n = int C" "c n = int K" "length (vals n) = C * K"
    and o1: "length (vals o1) = R * C"
  shows "Dot_loops m n o1 = Inr (o1\<lparr>vals :=
           concat (map (\<lambda>i. map (\<lambda>j.
             foldl (\<lambda>s k. s + vals m ! (i * K + k) * vals n ! (j * K + k)) 0 [0..<K])
             [0..<C]) [0..<R])\<rparr>)"
proof -
  let ?d = "\<lambda>i j. foldl (\<lambda>s k. s + vals m ! (i * K + k) * vals n ! (j * K + k)) 0 [0..<K]"
  let ?P = "\<lambda>i. concat (map (\<lambda>i. map (?d i) [0..<C]) [0..<i])"
  let ?g = "\<lambda>i. o1\<lparr>vals := ?P i @ drop (i * C) (vals o1)\<rparr>"
  let ?body = "\<lambda>i o2.
       let imc = i * int K in
       bindE (slice (vals m) imc (imc + int K)) (\<lambda>mrow.
       for_range 0 (int C) (\<lambda>j o3.
         let jnc = j * int K in
         bindE (slice (vals n) jnc (jnc + int K)) (\<lambda>ncol.
         bindE (dotfHelper mrow ncol) (\<lambda>d.
         bindE (wr (vals o3) (i * int C + j) d) (\<lambda>v'. Inr (o3\<lparr>vals := v'\<rparr>))))) o2)"
  have "for_range 0 (int R) ?body (?g 0) = Inr (?g R)"
  proof (rule for_range_iter)
    fix i assume i: "i < R"
    let ?mrow = "take K (drop (i * K) (vals m))"
    have e: "int i * int K = int (i * K)" by simp
    have le: "i * K + K \<le> length (vals m)" using row_bound [OF i] m(3) by simp
    have lenP: "length (?P i) = i * C" by (rule length_concat_rows)
    have room: "i * C + C \<le> length (vals (?g i))"
      using row_bound [OF i, of C] o1 lenP by simp
    have a: "length ?mrow = K" using le by simp
    have sl: "slice (vals m) (int i * int K) (int i * int K + int K) = Inr ?mrow"
      unfolding e using le by (simp add: slice_nat del: of_nat_mult)
    have "?body (int i) (?g i) =
        for_range 0 (int C) (\<lambda>j o3.
         let jnc = j * int K in
         bindE (slice (vals n) jnc (jnc + int K)) (\<lambda>ncol.
         bindE (dotfHelper ?mrow ncol) (\<lambda>d.
         bindE (wr (vals o3) (int i * int C + j) d) (\<lambda>v'. Inr (o3\<lparr>vals := v'\<rparr>))))) (?g i)"
      by (simp only: Let_def sl bindE_Inr)
    also have "\<dots> = Inr ((?g i)\<lparr>vals := take (i * C) (vals (?g i))
                @ map (\<lambda>j. foldl (\<lambda>s k. s + ?mrow ! k * vals n ! (j * K + k)) 0 [0..<K]) [0..<C]
                @ drop (i * C + C) (vals (?g i))\<rparr>)"
      by (rule Dot_inner [OF n(3) a room])
    also have "map (\<lambda>j. foldl (\<lambda>s k. s + ?mrow ! k * vals n ! (j * K + k)) 0 [0..<K]) [0..<C]
             = map (?d i) [0..<C]"
      using le by (intro map_cong foldl_cong refl) simp
    also have "take (i * C) (vals (?g i)) @ map (?d i) [0..<C] @ drop (i * C + C) (vals (?g i))
             = ?P (Suc i) @ drop (Suc i * C) (vals o1)"
      using lenP by (simp add: add.commute)
    finally show "?body (int i) (?g i) = Inr (?g (Suc i))"
      by simp
  qed
  then have "for_range 0 (int R) ?body o1 = Inr (o1\<lparr>vals := ?P R\<rparr>)"
    using o1 by simp
  then show ?thesis unfolding Dot_loops_def m n .
qed


lemma Newf_nat: "Newf [int R, int C] = Inr \<lparr>r = int R, c = int C, vals = replicate (R * C) 0\<rparr>"
  by (simp add: make_slice_def nat_mult_distrib mult_less_0_iff)

lemma length_dot_vals [simp]: "length (dot_vals R K C a b) = R * C"
  by (simp add: dot_vals_def length_concat_rows)

lemma nth_dot_vals:
  "i < R \<Longrightarrow> j < C \<Longrightarrow>
   dot_vals R K C a b ! (i * C + j) = foldl (\<lambda>s k. s + a ! (i * K + k) * b ! (k * C + j)) 0 [0..<K]"
  unfolding dot_vals_def by (rule nth_concat_rows)

lemma T_ptr_shape_ok:
  assumes "heap s a = Some m" "shape_ok m"
  shows "\<exists>p'. T_ptr a s = Inr (s\<lparr>heap := (heap s)(a \<mapsto>
            \<lparr>r = c m, c = r m, vals = tr_vals (nat (r m)) (nat (c m)) (vals m)\<rparr>), fPool := p'\<rparr>)"
  using T_shape_ok [OF assms(2), of "fPool s"] assms(1) by (auto simp: T_ptr_def)

lemma Dot_distinct:
  assumes ne: "pm \<noteq> pn" and hm: "heap s pm = Some m" and hn: "heap s pn = Some n"
    and okm: "shape_ok m" and okn: "shape_ok n" and dim: "c m = r n"
  shows "\<exists>p'. Dot pm pn s =
           Inr (\<lparr>r = r m, c = c n,
                 vals = dot_vals (nat (r m)) (nat (c m)) (nat (c n)) (vals m) (vals n)\<rparr>,
                s\<lparr>fPool := p'\<rparr>)"
proof -
  from okm obtain R K where m: "r m = int R" "c m = int K" "length (vals m) = R * K"
    by (rule shape_okD)
  from okn obtain K' C where n: "r n = int K'" "c n = int C" "length (vals n) = K' * C"
    by (rule shape_okD)
  have K: "K' = K" using dim m n by simp
  let ?n1 = "\<lparr>r = int C, c = int K, vals = tr_vals K C (vals n)\<rparr>"
  let ?o1 = "\<lparr>r = int R, c = int C, vals = replicate (R * C) (0::'a)\<rparr>"
  obtain p1 where s1: "T_ptr pn s = Inr (s\<lparr>heap := (heap s)(pn \<mapsto> ?n1), fPool := p1\<rparr>)"
    using T_ptr_shape_ok [OF hn okn] n K by auto
  let ?s1 = "s\<lparr>heap := (heap s)(pn \<mapsto> ?n1), fPool := p1\<rparr>"
  have ok1: "shape_ok ?n1" by (simp add: shape_ok_def)
  have h1: "heap ?s1 pn = Some ?n1" by simp
  obtain p2 where s2: "T_ptr pn ?s1 = Inr (?s1\<lparr>heap := (heap ?s1)(pn \<mapsto>
            \<lparr>r = c ?n1, c = r ?n1, vals = tr_vals (nat (r ?n1)) (nat (c ?n1)) (vals ?n1)\<rparr>), fPool := p2\<rparr>)"
    using T_ptr_shape_ok [OF h1 ok1] by blast
  have rest: "\<lparr>r = c ?n1, c = r ?n1, vals = tr_vals (nat (r ?n1)) (nat (c ?n1)) (vals ?n1)\<rparr> = n"
    using n K by (simp add: tr_vals_tr_vals)
  have hs: "(heap s)(pn \<mapsto> n) = heap s" using hn by (rule map_upd_triv)
  have s2': "T_ptr pn ?s1 = Inr (s\<lparr>fPool := p2\<rparr>)"
    unfolding s2 rest by (simp add: hs)
  have loops: "Dot_loops m ?n1 ?o1 = Inr (?o1\<lparr>vals :=
           concat (map (\<lambda>i. map (\<lambda>j.
             foldl (\<lambda>s k. s + vals m ! (i * K + k) * vals ?n1 ! (j * K + k)) 0 [0..<K])
             [0..<C]) [0..<R])\<rparr>)"
    by (rule Dot_loops_eq [OF m]) (simp_all add: mult.commute)
  have "concat (map (\<lambda>i. map (\<lambda>j.
             foldl (\<lambda>s k. s + vals m ! (i * K + k) * vals ?n1 ! (j * K + k)) 0 [0..<K])
             [0..<C]) [0..<R]) = dot_vals R K C (vals m) (vals n)"
    unfolding dot_vals_def
    by (intro arg_cong [where f = concat] map_cong foldl_cong refl) (simp add: nth_tr_vals)
  then have loops': "Dot_loops m ?n1 ?o1 = Inr \<lparr>r = int R, c = int C, vals = dot_vals R K C (vals m) (vals n)\<rparr>"
    using loops by simp
  have "Dot pm pn s = Inr (\<lparr>r = int R, c = int C, vals = dot_vals R K C (vals m) (vals n)\<rparr>, s\<lparr>fPool := p2\<rparr>)"
    unfolding Dot_def hm hn
    apply (simp only: prod.case option.case dim if_True refl)
    apply (simp only: m(1) n(2) Newf_nat bindE_Inr s1)
    apply (simp add: ne hm loops' s2' del: of_nat_mult)
    done
  then show ?thesis using m n by auto
qed


subsection \<open>Transpose twice, and the product\<close>








text \<open>
  Where addition is associative with unit zero, the left-to-right sum of the code is the
  sum over \<open>k\<close> of the specification.
\<close>

lemma foldl_sum:
  "foldl (\<lambda>s k. s + f k) (0::'a::semiring_0) [0..<K] = (\<Sum>k<K. f k)"
  by (induction K) simp_all

lemma Dot_entry_sum:
  fixes a b :: "('a::semiring_0) list"
  shows "i < R \<Longrightarrow> j < C \<Longrightarrow>
    dot_vals R K C a b ! (i * C + j) = (\<Sum>k<K. a ! (i * K + k) * b ! (k * C + j))"
  by (simp add: nth_dot_vals foldl_sum)



text \<open>
  The scenario of the specification: a 3x1 matrix of 2.0 times a 1x3 matrix of 3.0 is the
  3x3 matrix of 6.0, and the other order gives the 1x1 matrix of 18.0.
\<close>

lemma Dot_bra_ket:
  "map_sum id fst (Dot 0 1 \<lparr>heap = [0 \<mapsto> \<lparr>r = 3, c = 1, vals = [2, 2, 2 :: real]\<rparr>,
                                1 \<mapsto> \<lparr>r = 1, c = 3, vals = [3, 3, 3]\<rparr>], fPool = []\<rparr>)
     = Inr \<lparr>r = 3, c = 3, vals = [6, 6, 6, 6, 6, 6, 6, 6, 6]\<rparr>"
  by code_simp

lemma Dot_ket_bra:
  "map_sum id fst (Dot 1 0 \<lparr>heap = [0 \<mapsto> \<lparr>r = 3, c = 1, vals = [2, 2, 2 :: real]\<rparr>,
                                1 \<mapsto> \<lparr>r = 1, c = 3, vals = [3, 3, 3]\<rparr>], fPool = []\<rparr>)
     = Inr \<lparr>r = 1, c = 1, vals = [18]\<rparr>"
  by code_simp

lemma Dot_DimensionError:
  "heap s pm = Some m \<Longrightarrow> heap s pn = Some n \<Longrightarrow> c m \<noteq> r n \<Longrightarrow> Dot pm pn s = Inl DimensionError"
  by (simp add: Dot_def)

text \<open>
  C3 (fails on the code). For different objects the product is right
  (\<open>Dot_distinct\<close>, \<open>nth_dot_vals\<close>). But \<^verbatim>\<open>m.Dot(m)\<close> on the 2x2 matrix
  \<open>[[0, 1], [0, 0]]\<close> transposes the receiver together with the argument and returns
  \<open>[[0, 0], [0, 1]]\<close>, the product of the transpose with the matrix; the product of the
  matrix with itself is the zero matrix.
\<close>

theorem Dot_self_wrong:
  "map_sum id fst (Dot 0 0 \<lparr>heap = [0 \<mapsto> \<lparr>r = 2, c = 2, vals = [0, 1, 0, 0 :: real]\<rparr>], fPool = []\<rparr>)
     = Inr \<lparr>r = 2, c = 2, vals = [0, 0, 0, 1]\<rparr>
   \<and> dot_vals 2 2 2 [0, 1, 0, 0 :: real] [0, 1, 0, 0] = [0, 0, 0, 0]"
  by code_simp

text \<open>
  C6 (fails on the code). \<^verbatim>\<open>Eyef64(2)\<close> sets only index \<open>1 * 1 - 1 = 0\<close>: it is
  \<open>[[1, 0], [0, 0]]\<close>, not the identity, and the 2x2 matrix 1..4 times it is
  \<open>[[1, 0], [3, 0]]\<close>, which does not equal the matrix.
\<close>

theorem Eyef_not_identity:
  "Eyef 2 = Inr \<lparr>r = 2, c = 2, vals = [1, 0, 0, 0 :: real]\<rparr>
   \<and> map_sum id fst (Dot 0 1 \<lparr>heap = [0 \<mapsto> \<lparr>r = 2, c = 2, vals = [1, 2, 3, 4 :: real]\<rparr>,
                                     1 \<mapsto> \<lparr>r = 2, c = 2, vals = [1, 0, 0, 0]\<rparr>], fPool = []\<rparr>)
       = Inr \<lparr>r = 2, c = 2, vals = [1, 0, 3, 0]\<rparr>
   \<and> Equals \<lparr>r = 2, c = 2, vals = [1, 0, 3, 0 :: real]\<rparr> \<lparr>r = 2, c = 2, vals = [1, 2, 3, 4]\<rparr> = Inr False"
  by code_simp


subsection \<open>Reductions, arithmetic, rows and columns\<close>


text \<open>
  C5 (fails on the code). With no argument \<^verbatim>\<open>Std\<close> is the population standard
  deviation (\<open>Std_whole\<close> below). With an axis it divides the sum of squares of the
  selected row or column by \<^verbatim>\<open>len(m.vals)\<close>, the size of the whole matrix: in a 4x2
  matrix whose first row is \<open>[0, 4]\<close>, \<^verbatim>\<open>Std(0, 0)\<close> is \<open>sqrt (8 / 8) = 1\<close>, and the
  population standard deviation of that row is \<open>sqrt (8 / 2) = 2\<close>.
\<close>

theorem Std_row_not_population:
  "Std \<lparr>r = 4, c = 2, vals = [0, 4, 0, 0, 0, 0, 0, 0]\<rparr> [0, 0] = Inr 1
   \<and> row_elems \<lparr>r = 4, c = 2, vals = [0, 4, 0, 0, 0, 0, 0, 0 :: real]\<rparr> 0 = [0, 4]
   \<and> pop_std [0, 4] = 2"
proof -
  let ?m = "\<lparr>r = 4, c = 2, vals = [0, 4, 0, 0, 0, 0, 0, 0 :: real]\<rparr>"
  have avg: "Avg ?m [0, 0] = Inr 2" by code_simp
  have sum: "for_range 0 (c ?m) (\<lambda>i sum.
               bindE (rd (vals ?m) (0 * c ?m + i)) (\<lambda>v. Inr (sum + (2 - v) * (2 - v)))) 0 = Inr 8"
    by code_simp
  have q: "fdiv 8 (real (length (vals ?m))) = Inr 1" by code_simp
  have 1: "Std ?m [0, 0] = Inr 1"
    unfolding Std_def by (simp only: list.case if_True refl avg bindE_Inr sum q real_sqrt_one)
       (simp add: avg)
  have 2: "row_elems ?m 0 = [0, 4]"
    by (simp add: row_elems_def)
  have 3: "pop_std [0, 4] = 2"
    by (simp add: pop_std_def mean_def real_sqrt_four)
  show ?thesis using 1 2 3 by simp
qed

text \<open>
  The summing loop over the whole buffer.
\<close>

lemma sum_loop:
  "for_range 0 (int (length xs)) (\<lambda>i sum. bindE (rd xs i) (\<lambda>v. Inr (sum + f v))) (0::real)
     = Inr (sum_list (map f xs))"
proof -
  let ?g = "\<lambda>k. sum_list (map f (take k xs))"
  have "for_range 0 (int (length xs)) (\<lambda>i sum. bindE (rd xs i) (\<lambda>v. Inr (sum + f v))) (?g 0)
      = Inr (?g (length xs))"
    by (rule for_range_iter) (simp add: rd_nat take_Suc_conv_app_nth)
  then show ?thesis by simp
qed

lemma Std_whole:
  assumes "vals m \<noteq> []"
  shows "Std m [] = Inr (pop_std (vals m))"
proof -
  have len: "real (length (vals m)) \<noteq> 0" using assms by simp
  have avg: "Avg m [] = Inr (mean (vals m))"
    using len by (simp add: Avg_def sum_loop [where f = "\<lambda>v. v"] fdiv_def mean_def)
  have sq: "(\<lambda>v. (mean (vals m) - v) * (mean (vals m) - v)) = (\<lambda>x. (x - mean (vals m))\<^sup>2)"
    by (intro ext) (simp add: power2_eq_square algebra_simps)
  show ?thesis
    using len
    by (simp add: Std_def avg sum_loop [where f = "\<lambda>v. (mean (vals m) - v) * (mean (vals m) - v)"]
        fdiv_def pop_std_def sq mean_def [of "map _ _"])
qed

lemma forM_total:
  assumes "\<And>i s. i \<in> set js \<Longrightarrow> \<exists>s'. body (int i) s = Inr s'"
  shows "\<exists>s'. forM js body s = Inr s'"
  using assms
proof (induction js arbitrary: s)
  case Nil
  then show ?case by simp
next
  case (Cons j js)
  then obtain s1 where "body (int j) s = Inr s1" by (meson list.set_intros(1))
  then show ?case using Cons by simp
qed

lemma best_of_nonempty:
  assumes "vals m \<noteq> []"
  shows "\<exists>res. best_of better m [] = Inr res"
proof -
  have "\<exists>s'. forM [nat 1..<nat (int (length (vals m)))] (\<lambda>i (index, best).
       bindE (rd (vals m) i) (\<lambda>v.
         if better v best then bindE (rd (vals m) i) (\<lambda>v'. Inr (i, v'))
         else Inr (index, best))) (0, vals m ! 0) = Inr s'"
    by (rule forM_total) (auto simp: rd_nat)
  then show ?thesis using assms by (simp add: best_of_def scan_best_def for_range_def rd_def)
qed

lemma best_of_empty: "vals m = [] \<Longrightarrow> best_of better m [] = Inl RuntimePanic"
  by (simp add: best_of_def rd_def)

text \<open>
  C10. \<^verbatim>\<open>Min()\<close> and \<^verbatim>\<open>Max()\<close> read \<^verbatim>\<open>m.vals[0]\<close> first. On a matrix with
  \<open>rows * cols > 0\<close> elements every read is inside the buffer: the calls return a
  result. On an empty buffer, and so on the matrix of the constructor without arguments,
  the first read is a panic of the runtime, which is not the library's index error.
\<close>

theorem Min_Max_first_read:
  "(int (length (vals m)) = r m * c m \<and> 0 < r m * c m
      \<longrightarrow> (\<exists>res. Min_mat m [] = Inr res) \<and> (\<exists>res. Max_mat m [] = Inr res))
   \<and> (vals m = [] \<longrightarrow> Min_mat m [] = Inl RuntimePanic \<and> Max_mat m [] = Inl RuntimePanic)
   \<and> (\<exists>e. Newf [] = Inr e \<and> vals e = [] \<and> r e * c e = 0
          \<and> Min_mat e [] = Inl RuntimePanic \<and> Max_mat e [] = Inl RuntimePanic)"
proof -
  have 1: "(\<exists>res. Min_mat m [] = Inr res) \<and> (\<exists>res. Max_mat m [] = Inr res)"
    if "int (length (vals m)) = r m * c m \<and> 0 < r m * c m"
  proof -
    from that have "vals m \<noteq> []" by auto
    then show ?thesis unfolding Min_mat_def Max_mat_def by (intro conjI best_of_nonempty)
  qed
  have 2: "Min_mat m [] = Inl RuntimePanic \<and> Max_mat m [] = Inl RuntimePanic" if "vals m = []"
    using that by (simp add: Min_mat_def Max_mat_def best_of_empty)
  have 3: "\<exists>e. Newf [] = Inr e \<and> vals e = [] \<and> r e * c e = 0
          \<and> Min_mat e [] = Inl RuntimePanic \<and> Max_mat e [] = Inl RuntimePanic"
    by (simp add: make_slice_def Min_mat_def Max_mat_def best_of_empty)
  show ?thesis using 1 2 3 by blast
qed

text \<open>
  The row vector \<open>[5, 2, 7]\<close> has its minimum 2 at index 1 and its maximum 7 at index
  2; the empty matrix panics.
\<close>

theorem Min_Max_first_read_witness:
  "int (length (vals \<lparr>r = 1, c = 3, vals = [5, 2, 7 :: int]\<rparr>)) = 1 * 3 \<and> (0::int) < 1 * 3
   \<and> Min_mat \<lparr>r = 1, c = 3, vals = [5, 2, 7 :: int]\<rparr> [] = Inr (1, 2)
   \<and> Max_mat \<lparr>r = 1, c = 3, vals = [5, 2, 7 :: int]\<rparr> [] = Inr (2, 7)
   \<and> vals \<lparr>r = 0, c = 0, vals = [] :: int list\<rparr> = []
   \<and> Min_mat \<lparr>r = 0, c = 0, vals = [] :: int list\<rparr> [] = Inl RuntimePanic
   \<and> Max_mat \<lparr>r = 0, c = 0, vals = [] :: int list\<rparr> [] = Inl RuntimePanic"
proof -
  have a: "Min_mat \<lparr>r = 1, c = 3, vals = [5, 2, 7 :: int]\<rparr> [] = Inr (1, 2)" by code_simp
  have b: "Max_mat \<lparr>r = 1, c = 3, vals = [5, 2, 7 :: int]\<rparr> [] = Inr (2, 7)" by code_simp
  have e: "Min_mat \<lparr>r = 0, c = 0, vals = [] :: int list\<rparr> [] = Inl RuntimePanic
         \<and> Max_mat \<lparr>r = 0, c = 0, vals = [] :: int list\<rparr> [] = Inl RuntimePanic"
    using Min_Max_first_read [of "\<lparr>r = 0, c = 0, vals = [] :: int list\<rparr>"] by fastforce
  show ?thesis using a b e by simp
qed


lemma mat_case_same_shape:
  "r v = r m \<Longrightarrow> c v = c m \<Longrightarrow> length (vals v) = length (vals m) \<Longrightarrow>
   mat_case f m v = Inr (m\<lparr>vals := map2 f (vals m) (vals v)\<rparr>)"
  by (simp add: mat_case_def vecf_def)

lemma map2_nth: "i < length a \<Longrightarrow> length b = length a \<Longrightarrow> map2 f a b ! i = f (a ! i) (b ! i)"
  by simp

lemma mat_case_ShapeMismatchError:
  "(mat_case f m v = Inl ShapeMismatchError) = (r v = r m \<longrightarrow> c v \<noteq> c m)"
  by (auto simp: mat_case_def vecf_def bindE_def split: sum.splits if_splits)

lemma Matf64_scalar:
  "Matf64_Add m (Float64 x) = Inr (m\<lparr>vals := map (\<lambda>e. e + x) (vals m)\<rparr>)"
  "Matf64_Sub m1 (Float64 x1) = Inr (m1\<lparr>vals := map (\<lambda>e. e - x1) (vals m1)\<rparr>)"
  "Matf64_Mul m2 (Float64 x2) = Inr (m2\<lparr>vals := map (\<lambda>e. e * x2) (vals m2)\<rparr>)"
  "Matf64_Div m3 (Float64 x3) = Inr (m3\<lparr>vals := map (\<lambda>e. e div x3) (vals m3)\<rparr>)"
  by (simp_all add: Matf64_Add_def Matf64_Sub_def Matf64_Mul_def Matf64_Div_def)

lemma Matf32_scalar:
  "Matf32_Add f m (Float64 x) = Inr (m\<lparr>vals := map (\<lambda>e. e + f x) (vals m)\<rparr>)"
  "Matf32_Mul f2 m2 (Float64 x2) = Inr (m2\<lparr>vals := map (\<lambda>e. e * f2 x2) (vals m2)\<rparr>)"
  "Matf32_Div f3 m3 (Float64 x3) = Inr (m3\<lparr>vals := map (\<lambda>e. e div f3 x3) (vals m3)\<rparr>)"
  by (simp_all add: Matf32_Add_def Matf32_Mul_def Matf32_Div_def)

lemma arith_matrix:
  "Matf64_Add m (PtrMatf64 v) = mat_case (\<lambda>x y. x + y) m v"
  "Matf64_Sub m1 (PtrMatf64 v1) = mat_case (\<lambda>x y. x - y) m1 v1"
  "Matf64_Mul m2 (PtrMatf64 v2) = mat_case (\<lambda>x y. x * y) m2 v2"
  "Matf64_Div m3 (PtrMatf64 v3) = mat_case (\<lambda>x y. x div y) m3 v3"
  "Matf32_Add f4 m4 (PtrMatf32 v4) = mat_case (\<lambda>x y. x + y) m4 v4"
  "Matf32_Sub m5 (PtrMatf32 v5) = mat_case (\<lambda>x y. x - y) m5 v5"
  "Matf32_Mul f6 m6 (PtrMatf32 v6) = mat_case (\<lambda>x y. x * y) m6 v6"
  "Matf32_Div f7 m7 (PtrMatf32 v7) = mat_case (\<lambda>x y. x div y) m7 v7"
  by (simp_all add: Matf64_Add_def Matf64_Sub_def Matf64_Mul_def Matf64_Div_def
      Matf32_Add_def Matf32_Sub_def Matf32_Mul_def Matf32_Div_def)

text \<open>
  C8 (fails on the code). The scalar case of every method is as claimed for a scalar
  of the dynamic type the method switches on (\<open>Matf64_scalar\<close>, \<open>Matf32_scalar\<close>),
  the matrix case is elementwise on equal shapes and fails exactly on different shapes
  (\<open>arith_matrix\<close>, \<open>mat_case_same_shape\<close>, \<open>mat_case_ShapeMismatchError\<close>). But
  \<^verbatim>\<open>Matf32.Sub\<close> switches on \<^verbatim>\<open>float32\<close> where \<^verbatim>\<open>Matf32.Add\<close>, \<^verbatim>\<open>Mul\<close> and
  \<^verbatim>\<open>Div\<close> switch on \<^verbatim>\<open>float64\<close>: the call \<^verbatim>\<open>m.Sub(2.0)\<close> of its own doc comment
  passes a \<^verbatim>\<open>float64\<close> and ends in the type error of the default case.
\<close>

theorem Matf32_Sub_float64:
  "Matf32_Sub \<lparr>r = 2, c = 3, vals = [5, 5, 5, 5, 5, 5 :: real]\<rparr> (Float64 (2 :: real)) = Inl TypeError
   \<and> Matf32_Add (\<lambda>x. x) \<lparr>r = 2, c = 3, vals = [5, 5, 5, 5, 5, 5 :: real]\<rparr> (Float64 (2 :: real))
       = Inr \<lparr>r = 2, c = 3, vals = [7, 7, 7, 7, 7, 7]\<rparr>
   \<and> Matf64_Sub \<lparr>r = 2, c = 3, vals = [5, 5, 5, 5, 5, 5 :: real]\<rparr> (Float64 2 :: (real, real) iface)
       = Inr \<lparr>r = 2, c = 3, vals = [3, 3, 3, 3, 3, 3]\<rparr>"
  by (simp add: Matf32_Sub_def Matf32_Add_def Matf64_Sub_def)

lemma Row_negative: "- r m \<le> x \<Longrightarrow> x < 0 \<Longrightarrow> Row m x = Row m (r m + x)"
  by (simp add: Row_def)

lemma Col_negative: "- c m \<le> x \<Longrightarrow> x < 0 \<Longrightarrow> Col m x = Col m (c m + x)"
  by (simp add: Col_def)

lemma SetRow_negative: "- r m \<le> x \<Longrightarrow> x < 0 \<Longrightarrow> SetRow m x v = SetRow m (r m + x) v"
  by (cases v) (simp_all add: SetRow_def)

lemma SetCol_negative: "- c m \<le> x \<Longrightarrow> x < 0 \<Longrightarrow> SetCol m x v = SetCol m (c m + x) v"
  by (cases v) (simp_all add: SetCol_def)

lemma Row_IndexError: "x \<ge> r m \<or> x < - r m \<Longrightarrow> Row m x = Inl IndexError"
  by (simp add: Row_def)

lemma Col_IndexError: "x \<ge> c m \<or> x < - c m \<Longrightarrow> Col m x = Inl IndexError"
  by (simp add: Col_def)

lemma Set_scalar_IndexError:
  "x \<ge> r m \<or> x < - r m \<Longrightarrow> SetRow m x (Float64 v) = Inl IndexError"
  "y \<ge> c m \<or> y < - c m \<Longrightarrow> SetCol m y (Float64 v) = Inl IndexError"
  by (simp_all add: SetRow_def SetCol_def)

text \<open>
  C9 (fails on the code). A negative index selects the same row or column as its
  non-negative form in all four methods (\<open>Row_negative\<close>, \<open>Col_negative\<close>,
  \<open>SetRow_negative\<close>, \<open>SetCol_negative\<close>), and \<^verbatim>\<open>Row\<close>, \<^verbatim>\<open>Col\<close> and the scalar
  forms of \<^verbatim>\<open>SetRow\<close> and \<^verbatim>\<open>SetCol\<close> report an index error outside the bounds
  (\<open>Row_IndexError\<close>, \<open>Col_IndexError\<close>, \<open>Set_scalar_IndexError\<close>). The slice forms
  of \<^verbatim>\<open>SetRow\<close> and \<^verbatim>\<open>SetCol\<close> have no index check: on a 2x2 matrix, column 2 with
  the slice \<open>[1, 2]\<close> first writes offset \<open>0 * 2 + 2\<close>, which is row 1, column 0, and
  then panics at offset 4; no index error is reported, and none ever is by these forms
  (\<open>Set_slice_never_IndexError\<close>).
\<close>

theorem SetCol_slice_unchecked:
  "SetCol \<lparr>r = 2, c = 2, vals = [0, 0, 0, 0 :: real]\<rparr> 2 (SliceFloat64 [1, 2] :: (real, real) iface)
     = Inl RuntimePanic
   \<and> SetCol \<lparr>r = 2, c = 2, vals = [0, 0, 0, 0 :: real]\<rparr> 2 (Float64 1 :: (real, real) iface)
     = Inl IndexError
   \<and> SetRow \<lparr>r = 2, c = 2, vals = [0, 0, 0, 0 :: real]\<rparr> 2 (SliceFloat64 [1, 2] :: (real, real) iface)
     = Inl RuntimePanic
   \<and> SetRow \<lparr>r = 2, c = 2, vals = [0, 0, 0, 0 :: real]\<rparr> 2 (Float64 1 :: (real, real) iface)
     = Inl IndexError"
  by code_simp


subsection \<open>The buffer invariant after the other operations\<close>

text \<open>Every other operation that returns leaves \<open>len(buffer) = rows * cols\<close>
  true: construction, \<^verbatim>\<open>Reshape\<close>, \<^verbatim>\<open>Set\<close>, \<^verbatim>\<open>SetAll\<close>, \<^verbatim>\<open>SetRow\<close>, \<^verbatim>\<open>SetCol\<close>,
  the arithmetic, transpose, \<^verbatim>\<open>Dot\<close>, \<^verbatim>\<open>AppendRow\<close>, \<^verbatim>\<open>AppendCol\<close>, \<^verbatim>\<open>Concat\<close> and
  \<^verbatim>\<open>Copy\<close>.\<close>



lemma forM_preserves:
  assumes "\<And>i s s'. body i s = Inr s' \<Longrightarrow> P s \<Longrightarrow> P s'"
  shows "forM js body s = Inr s' \<Longrightarrow> P s \<Longrightarrow> P s'"
proof (induction js arbitrary: s)
  case Nil
  then show ?case by simp
next
  case (Cons j js)
  then obtain s1 where s1: "body (int j) s = Inr s1" "forM js body s1 = Inr s'"
    by (auto simp: bindE_def split: sum.splits)
  then show ?case using Cons assms by blast
qed

lemma for_range_preserves:
  assumes "\<And>i s s'. body i s = Inr s' \<Longrightarrow> P s \<Longrightarrow> P s'"
  shows "for_range lo hi body s = Inr s' \<Longrightarrow> P s \<Longrightarrow> P s'"
  unfolding for_range_def using forM_preserves [of body P] assms by blast

lemma wr_length: "wr xs i v = Inr ys \<Longrightarrow> length ys = length xs"
  by (auto simp: wr_def split: if_splits)

lemma wr_vals_same_size:
  "bindE (wr (vals m) i e) (\<lambda>vs. Inr (m\<lparr>vals := vs\<rparr>)) = Inr m' \<Longrightarrow> same_size a b n m \<Longrightarrow> same_size a b n m'"
  by (auto simp: bindE_def same_size_def split: sum.splits dest: wr_length)


lemma fill_rows_same_size:
  assumes "for_range lo hi (\<lambda>i. for_range lo' hi' (\<lambda>j m2.
          bindE (rd q i) (\<lambda>row. bindE (rd row j) (\<lambda>e.
          bindE (wr (vals m2) (i * c m2 + j) e) (\<lambda>vs. Inr (m2\<lparr>vals := vs\<rparr>)))))) m1 = Inr m'"
    and "same_size a b n m1"
  shows "same_size a b n m'"
  using assms
proof (rule for_range_preserves [where P = "same_size a b n", rotated])
  fix i s s'
  assume "for_range lo' hi' (\<lambda>j m2.
          bindE (rd q i) (\<lambda>row. bindE (rd row j) (\<lambda>e.
          bindE (wr (vals m2) (i * c m2 + j) e) (\<lambda>vs. Inr (m2\<lparr>vals := vs\<rparr>))))) s = Inr s'"
    and "same_size a b n s"
  then show "same_size a b n s'"
  proof (rule for_range_preserves [where P = "same_size a b n", rotated])
    fix j t t'
    assume "bindE (rd q i) (\<lambda>row. bindE (rd row j) (\<lambda>e.
          bindE (wr (vals t) (i * c t + j) e) (\<lambda>vs. Inr (t\<lparr>vals := vs\<rparr>)))) = Inr t'"
      and "same_size a b n t"
    then show "same_size a b n t'"
      by (auto simp: bindE_def same_size_def split: sum.splits dest: wr_length)
  qed
qed

lemma Newf_buffer_ok: "Newf dims = Inr m \<Longrightarrow> buffer_ok m"
  by (induction dims rule: Newf.induct)
     (auto simp: buffer_ok_def make_slice_def split: if_splits)

lemma Reshape_buffer_ok: "Reshape m rows cols = Inr m' \<Longrightarrow> buffer_ok m \<Longrightarrow> buffer_ok m'"
  by (auto simp: Reshape_def buffer_ok_def split: if_splits)

lemma Set_at_buffer_ok: "Set_at m i j v = Inr m' \<Longrightarrow> buffer_ok m \<Longrightarrow> buffer_ok m'"
  using wr_vals_same_size [of m "i * c m + j" v m' "r m" "c m" "length (vals m)"]
  by (simp add: Set_at_def buffer_ok_def same_size_def)

lemma SetAll_buffer_ok: "buffer_ok m \<Longrightarrow> buffer_ok (SetAll m v)"
  by (simp add: SetAll_def buffer_ok_def)

lemma Copy_buffer_ok: "Copy m = Inr n \<Longrightarrow> buffer_ok n"
proof -
  assume "Copy m = Inr n"
  then obtain n0 where n0: "Newf [r m, c m] = Inr n0" "n = n0\<lparr>vals := copy (vals n0) (vals m)\<rparr>"
    by (auto simp: Copy_def bindE_def split: sum.splits)
  from Newf_buffer_ok [OF n0(1)] show ?thesis
    unfolding n0(2) by (simp add: buffer_ok_def copy_def)
qed

lemma AppendRow_buffer_ok: "AppendRow m v = Inr m' \<Longrightarrow> buffer_ok m \<Longrightarrow> buffer_ok m'"
  by (auto simp: AppendRow_def buffer_ok_def algebra_simps split: if_splits)

lemma AppendCol_buffer_ok:
  assumes "AppendCol m v = Inr m'" and ok: "buffer_ok m"
  shows "buffer_ok m'"
proof -
  from assms(1) have rv: "r m = int (length v)"
    by (auto simp: AppendCol_def split: if_splits)
  from assms(1) rv obtain q2 where
    "for_range 0 (r m) (\<lambda>i. for_range 0 (c m + 1) (\<lambda>j m2.
          bindE (rd q2 i) (\<lambda>row. bindE (rd row j) (\<lambda>e.
          bindE (wr (vals m2) (i * c m2 + j) e) (\<lambda>vs. Inr (m2\<lparr>vals := vs\<rparr>))))))
          (m\<lparr>c := c m + 1, vals := vals m @ v\<rparr>) = Inr m'"
    by (auto simp: AppendCol_def bindE_def split: sum.splits)
  moreover have "same_size (r m) (c m + 1) (length (vals m) + length v) (m\<lparr>c := c m + 1, vals := vals m @ v\<rparr>)"
    by (simp add: same_size_def)
  ultimately have "same_size (r m) (c m + 1) (length (vals m) + length v) m'"
    by (rule fill_rows_same_size)
  then show ?thesis using ok rv by (simp add: same_size_def buffer_ok_def algebra_simps)
qed

lemma ToSlice2D_returns: "ToSlice2D n = Inr rn \<Longrightarrow> 0 \<le> r n"
  by (auto simp: ToSlice2D_def split: if_splits)

lemma Concat_buffer_ok:
  assumes "Concat m n = Inr m'" and ok: "buffer_ok m" "buffer_ok n"
  shows "buffer_ok m'"
proof -
  from assms(1) have rr: "r m = r n"
    by (auto simp: Concat_def split: if_splits)
  from assms(1) rr obtain q2 where
    "for_range 0 (r m) (\<lambda>i. for_range 0 (c m + c n) (\<lambda>j m2.
          bindE (rd q2 i) (\<lambda>row. bindE (rd row j) (\<lambda>e.
          bindE (wr (vals m2) (i * c m2 + j) e) (\<lambda>vs. Inr (m2\<lparr>vals := vs\<rparr>))))))
          (m\<lparr>c := c m + c n, vals := vals m @ vals n\<rparr>) = Inr m'"
    by (auto simp: Concat_def bindE_def split: sum.splits)
  moreover have "same_size (r m) (c m + c n) (length (vals m) + length (vals n))
                   (m\<lparr>c := c m + c n, vals := vals m @ vals n\<rparr>)"
    by (simp add: same_size_def)
  ultimately have "same_size (r m) (c m + c n) (length (vals m) + length (vals n)) m'"
    by (rule fill_rows_same_size)
  then show ?thesis using ok rr by (simp add: same_size_def buffer_ok_def algebra_simps)
qed

lemma T_buffer_ok:
  assumes "T m p = Inr (m', p')" and ok: "buffer_ok m"
  shows "buffer_ok m'"
proof (cases "isRowVector m \<or> isColVector m")
  case True
  then show ?thesis using assms by (auto simp: T_def buffer_ok_def mult.commute)
next
  case False
  then obtain n2 where "m' = m\<lparr>r := c m, c := r m, vals := copy (vals m) n2\<rparr>"
    using assms(1) by (auto simp: T_def Let_def bindE_def split: sum.splits prod.splits if_splits)
  then show ?thesis using ok by (simp add: buffer_ok_def copy_def mult.commute)
qed

lemma set_loop_same_size:
  assumes "for_range lo hi (\<lambda>k m1. bindE (g k) (\<lambda>e.
             bindE (wr (vals m1) (f k) e) (\<lambda>vs. Inr (m1\<lparr>vals := vs\<rparr>)))) m = Inr m'"
    and "same_size a b n m"
  shows "same_size a b n m'"
  using assms
proof (rule for_range_preserves [where P = "same_size a b n", rotated])
  fix k s s'
  assume "bindE (g k) (\<lambda>e. bindE (wr (vals s) (f k) e) (\<lambda>vs. Inr (s\<lparr>vals := vs\<rparr>))) = Inr s'"
    and "same_size a b n s"
  then show "same_size a b n s'"
    by (auto simp: bindE_def same_size_def split: sum.splits dest: wr_length)
qed

lemma same_size_buffer_ok:
  "same_size (r m) (c m) (length (vals m)) m' \<Longrightarrow> buffer_ok m \<Longrightarrow> buffer_ok m'"
  by (simp add: same_size_def buffer_ok_def)

lemma SetCol_buffer_ok:
  assumes "SetCol m col v = Inr m'" and ok: "buffer_ok m"
  shows "buffer_ok m'"
proof -
  have s: "same_size (r m) (c m) (length (vals m)) m" by (simp add: same_size_def)
  have "same_size (r m) (c m) (length (vals m)) m'"
  proof (cases v)
    case (Float64 x)
    then show ?thesis
      using assms(1) set_loop_same_size [where g = "\<lambda>k. Inr x" and m = m and m' = m', OF _ s]
      by (auto simp: SetCol_def split: if_splits)
  next
    case (SliceFloat64 xs)
    then show ?thesis
      using assms(1) set_loop_same_size [where g = "rd xs" and m = m and m' = m', OF _ s]
      by (auto simp: SetCol_def split: if_splits)
  qed (use assms(1) in \<open>simp_all add: SetCol_def\<close>)
  then show ?thesis using ok by (rule same_size_buffer_ok)
qed

lemma SetRow_buffer_ok:
  assumes "SetRow m row v = Inr m'" and ok: "buffer_ok m"
  shows "buffer_ok m'"
proof -
  have s: "same_size (r m) (c m) (length (vals m)) m" by (simp add: same_size_def)
  have "same_size (r m) (c m) (length (vals m)) m'"
  proof (cases v)
    case (Float64 x)
    then show ?thesis
      using assms(1) set_loop_same_size [where g = "\<lambda>k. Inr x" and m = m and m' = m', OF _ s]
      by (auto simp: SetRow_def split: if_splits)
  next
    case (SliceFloat64 xs)
    then show ?thesis
      using assms(1) set_loop_same_size [where g = "rd xs" and m = m and m' = m', OF _ s]
      by (auto simp: SetRow_def split: if_splits)
  qed (use assms(1) in \<open>simp_all add: SetRow_def\<close>)
  then show ?thesis using ok by (rule same_size_buffer_ok)
qed

lemma mat_case_buffer_ok: "mat_case f m v = Inr m' \<Longrightarrow> buffer_ok m \<Longrightarrow> buffer_ok m'"
  by (auto simp: mat_case_def vecf_def buffer_ok_def bindE_def split: if_splits sum.splits)

lemma arith_buffer_ok:
  "Matf64_Add m a = Inr m' \<Longrightarrow> buffer_ok m \<Longrightarrow> buffer_ok m'"
  "Matf64_Sub m1 a1 = Inr m1' \<Longrightarrow> buffer_ok m1 \<Longrightarrow> buffer_ok m1'"
  "Matf64_Mul m2 a2 = Inr m2' \<Longrightarrow> buffer_ok m2 \<Longrightarrow> buffer_ok m2'"
  "Matf64_Div m3 a3 = Inr m3' \<Longrightarrow> buffer_ok m3 \<Longrightarrow> buffer_ok m3'"
  "Matf32_Add f4 m4 a4 = Inr m4' \<Longrightarrow> buffer_ok m4 \<Longrightarrow> buffer_ok m4'"
  "Matf32_Sub m5 a5 = Inr m5' \<Longrightarrow> buffer_ok m5 \<Longrightarrow> buffer_ok m5'"
  "Matf32_Mul f6 m6 a6 = Inr m6' \<Longrightarrow> buffer_ok m6 \<Longrightarrow> buffer_ok m6'"
  "Matf32_Div f7 m7 a7 = Inr m7' \<Longrightarrow> buffer_ok m7 \<Longrightarrow> buffer_ok m7'"
  by (auto simp: Matf64_Add_def Matf64_Sub_def Matf64_Mul_def Matf64_Div_def
      Matf32_Add_def Matf32_Sub_def Matf32_Mul_def Matf32_Div_def buffer_ok_def
      split: iface.splits dest: mat_case_buffer_ok [unfolded buffer_ok_def])

lemma Dot_buffer_ok:
  assumes "pm \<noteq> pn" "heap s pm = Some m" "heap s pn = Some n" "shape_ok m" "shape_ok n" "c m = r n"
    and "Dot pm pn s = Inr (o1, s')"
  shows "buffer_ok o1 \<and> heap s' = heap s"
proof -
  from assms(4) obtain R K where m: "r m = int R" "c m = int K" by (rule shape_okD)
  from assms(5) obtain K' C where n: "r n = int K'" "c n = int C" by (rule shape_okD)
  from Dot_distinct [OF assms(1-6)] assms(7) show ?thesis
    by (auto simp: buffer_ok_def m n nat_mult_distrib)
qed

lemma Append_ColumnMismatchError: "c m \<noteq> c n \<Longrightarrow> Append m n = Inl ColumnMismatchError"
  by (simp add: Append_def)



subsection \<open>The slice forms of SetRow and SetCol\<close>

text \<open>Whatever the index, the slice forms never report an index error: their only
  failures are the length check and the panic of the runtime.\<close>


lemma forM_error:
  assumes "\<And>i s e. body i s = Inl e \<Longrightarrow> P e"
  shows "forM js body s = Inl e \<Longrightarrow> P e"
proof (induction js arbitrary: s)
  case Nil
  then show ?case by simp
next
  case (Cons j js)
  then show ?case using assms by (cases "body (int j) s") auto
qed

lemma rd_error: "rd xs i = Inl e \<Longrightarrow> e = RuntimePanic"
  by (auto simp: rd_def split: if_splits)

lemma wr_error: "wr xs i v = Inl e \<Longrightarrow> e = RuntimePanic"
  by (auto simp: wr_def split: if_splits)

lemma set_loop_error:
  "for_range lo hi (\<lambda>k m1. bindE (rd xs k) (\<lambda>e.
       bindE (wr (vals m1) (f k) e) (\<lambda>vs. Inr (m1\<lparr>vals := vs\<rparr>)))) m = Inl e \<Longrightarrow> e = RuntimePanic"
  unfolding for_range_def
  by (erule forM_error [rotated])
     (auto simp: bindE_def split: sum.splits dest: rd_error wr_error)

lemma Set_slice_never_IndexError:
  "SetCol m col (SliceFloat64 xs) \<noteq> Inl IndexError"
  "SetRow m row (SliceFloat64 xs) \<noteq> Inl IndexError"
  by (auto simp: SetCol_def SetRow_def dest: set_loop_error)


subsection \<open>Outside the data model\<close>

text \<open>\<^verbatim>\<open>Reshape\<close> compares products only, so it accepts two negative dimensions. The
  record it leaves keeps \<open>len(buffer) = rows * cols\<close> but is no matrix of the data model
  (\<open>shape_ok\<close> fails), and the theorems on transpose and \<^verbatim>\<open>Dot\<close> above say nothing
  about it: with negative dimensions the loops of \<^verbatim>\<open>T\<close> do not run and the scratch
  buffer, fresh or stale, is copied over the receiver.\<close>

lemma Reshape_negative_dimensions:
  "Reshape \<lparr>r = 2, c = 3, vals = [1, 2, 3, 4, 5, 6 :: int]\<rparr> (- 2) (- 3)
     = Inr \<lparr>r = - 2, c = - 3, vals = [1, 2, 3, 4, 5, 6]\<rparr>
   \<and> buffer_ok \<lparr>r = - 2, c = - 3, vals = [1, 2, 3, 4, 5, 6 :: int]\<rparr>
   \<and> \<not> shape_ok \<lparr>r = - 2, c = - 3, vals = [1, 2, 3, 4, 5, 6 :: int]\<rparr>
   \<and> T \<lparr>r = - 2, c = - 3, vals = [1, 2, 3, 4, 5, 6 :: int]\<rparr> []
     = Inr (\<lparr>r = - 3, c = - 2, vals = [0, 0, 0, 0, 0, 0]\<rparr>, [[0, 0, 0, 0, 0, 0]])"
  by code_simp

end
